theory Spec2Isabelle
  imports Complex_Main "HOL-Library.Sublist" "HOL-Library.AList"
begin

section \<open>Python text: whitespace, case, trimming, substring tests\<close>

text \<open>
  A Python \<open>str\<close> is a sequence of code points. The model reads a \<^typ>\<open>char\<close> as one
  code point below 256, so \<^const>\<open>length\<close> counts what \<open>len\<close> counts. On that range
  \<open>str.isspace\<close>, the regex class \<open>\s\<close> and \<open>str.strip\<close> agree on the whitespace set
  \<open>{9..13, 28..32, 133, 160}\<close>, and \<open>str.lower\<close> maps \<open>A..Z\<close> and the upper-case letters
  \<open>192..222\<close> (without the multiplication sign 215) 32 places up.
\<close>

definition isspace :: "char \<Rightarrow> bool" where
  "isspace c =
     (let n = (of_char c :: nat)
      in (9 \<le> n \<and> n \<le> 13) \<or> (28 \<le> n \<and> n \<le> 32) \<or> n = 133 \<or> n = 160)"

definition lower_char :: "char \<Rightarrow> char" where
  "lower_char c =
     (let n = (of_char c :: nat)
      in if (65 \<le> n \<and> n \<le> 90) \<or> (192 \<le> n \<and> n \<le> 222 \<and> n \<noteq> 215)
         then char_of (n + 32) else c)"

definition isalpha_ascii :: "char \<Rightarrow> bool" where
  \<comment> \<open>the character class \<open>[a-zA-Z]\<close>\<close>
  "isalpha_ascii c =
     (let n = (of_char c :: nat) in (65 \<le> n \<and> n \<le> 90) \<or> (97 \<le> n \<and> n \<le> 122))"

definition lower :: "string \<Rightarrow> string" where
  "lower s = map lower_char s"

definition lstrip :: "string \<Rightarrow> string" where
  "lstrip s = dropWhile isspace s"

definition rstrip :: "string \<Rightarrow> string" where
  "rstrip s = rev (dropWhile isspace (rev s))"

definition strip :: "string \<Rightarrow> string" where
  "strip s = rstrip (lstrip s)"

definition startswith :: "string \<Rightarrow> string \<Rightarrow> bool" where
  "startswith s p = prefix p s"

definition endswith :: "string \<Rightarrow> string \<Rightarrow> bool" where
  "endswith s p = suffix p s"

definition contains :: "string \<Rightarrow> string \<Rightarrow> bool" where
  \<comment> \<open>\<open>p in s\<close>\<close>
  "contains s p = sublist p s"

section \<open>The fragment of \<open>re\<close> the service uses\<close>

text \<open>
  The three patterns of \<open>_extract_html_from_response\<close> are flat: literal characters,
  the classes \<open>\s\<close> and \<open>[a-zA-Z]\<close>, the dot (under \<open>re.DOTALL\<close>, any character), greedy
  and lazy stars over one of these, and one capturing group. \<open>re.IGNORECASE\<close> makes a
  literal match both cases of its letter. The matcher is the backtracking matcher of
  \<open>re\<close>: a greedy star first takes one more character and only then tries the rest of
  the pattern, a lazy star first tries the rest of the pattern. It returns the text of
  the group.
\<close>

datatype atom =
    Lit char        \<comment> \<open>a literal character\<close>
  | ILit char       \<comment> \<open>a literal character under \<open>re.IGNORECASE\<close>\<close>
  | Space           \<comment> \<open>\<open>\s\<close>\<close>
  | Alpha           \<comment> \<open>\<open>[a-zA-Z]\<close>\<close>
  | Dot             \<comment> \<open>\<open>.\<close> under \<open>re.DOTALL\<close>\<close>

datatype item =
    One atom
  | Greedy atom     \<comment> \<open>\<open>a*\<close>\<close>
  | Lazy atom       \<comment> \<open>\<open>a*?\<close>\<close>
  | GroupOpen
  | GroupClose

fun atom_ok :: "atom \<Rightarrow> char \<Rightarrow> bool" where
  "atom_ok (Lit c) x = (x = c)"
| "atom_ok (ILit c) x = (lower_char x = lower_char c)"
| "atom_ok Space x = isspace x"
| "atom_ok Alpha x = isalpha_ascii x"
| "atom_ok Dot x = True"

definition keep :: "bool \<Rightarrow> char \<Rightarrow> string \<Rightarrow> string" where
  \<comment> \<open>a consumed character belongs to the group's text when the group is open\<close>
  "keep g c w = (if g then c # w else w)"

fun re_match :: "bool \<Rightarrow> item list \<Rightarrow> string \<Rightarrow> string option" where
  "re_match g [] s = Some []"
| "re_match g (GroupOpen # r) s = re_match True r s"
| "re_match g (GroupClose # r) s = re_match False r s"
| "re_match g (One a # r) [] = None"
| "re_match g (One a # r) (c # cs) =
     (if atom_ok a c then map_option (keep g c) (re_match g r cs) else None)"
| "re_match g (Greedy a # r) [] = re_match g r []"
| "re_match g (Greedy a # r) (c # cs) =
     (if atom_ok a c
      then (case re_match g (Greedy a # r) cs of
              Some w \<Rightarrow> Some (keep g c w)
            | None \<Rightarrow> re_match g r (c # cs))
      else re_match g r (c # cs))"
| "re_match g (Lazy a # r) [] = re_match g r []"
| "re_match g (Lazy a # r) (c # cs) =
     (case re_match g r (c # cs) of
        Some w \<Rightarrow> Some w
      | None \<Rightarrow>
          (if atom_ok a c then map_option (keep g c) (re_match g (Lazy a # r) cs)
           else None))"

fun re_search :: "item list \<Rightarrow> string \<Rightarrow> string option" where
  \<comment> \<open>\<open>re.search\<close>: the first start position, from the left, at which the pattern matches\<close>
  "re_search p [] = re_match False p []"
| "re_search p (c # cs) =
     (case re_match False p (c # cs) of Some w \<Rightarrow> Some w | None \<Rightarrow> re_search p cs)"

definition lits :: "string \<Rightarrow> item list" where
  "lits s = map (\<lambda>c. One (Lit c)) s"

definition ilits :: "string \<Rightarrow> item list" where
  "ilits s = map (\<lambda>c. One (ILit c)) s"

definition fence :: string where
  \<comment> \<open>three backquotes\<close>
  "fence = replicate 3 (char_of (96::nat))"

definition html_block_pattern :: "item list" where
  \<comment> \<open>\<open>```html\s*(.*?)\s*```\<close> with \<open>re.DOTALL\<close>\<close>
  "html_block_pattern =
     lits (fence @ ''html'') @ [Greedy Space, GroupOpen, Lazy Dot, GroupClose, Greedy Space]
       @ lits fence"

definition code_block_pattern :: "item list" where
  \<comment> \<open>\<open>```[a-zA-Z]*\s*(<!DOCTYPE html.*?</html>)\s*```\<close> with \<open>re.DOTALL | re.IGNORECASE\<close>\<close>
  "code_block_pattern =
     ilits fence @ [Greedy Alpha, Greedy Space, GroupOpen] @ ilits ''<!DOCTYPE html''
       @ [Lazy Dot] @ ilits ''</html>'' @ [GroupClose, Greedy Space] @ ilits fence"

definition doctype_pattern :: "item list" where
  \<comment> \<open>\<open><!DOCTYPE html.*?</html>\<close> with \<open>re.DOTALL | re.IGNORECASE\<close>; the group is the
      whole match, \<open>group(0)\<close>\<close>
  "doctype_pattern =
     [GroupOpen] @ ilits ''<!DOCTYPE html'' @ [Lazy Dot] @ ilits ''</html>'' @ [GroupClose]"

section \<open>Extraction and validation\<close>

definition extract_html_from_response :: "string \<Rightarrow> string" where
  "extract_html_from_response response_content =
     (case re_search html_block_pattern response_content of
        Some html_match \<Rightarrow> strip html_match
      | None \<Rightarrow>
     (case re_search code_block_pattern response_content of
        Some code_block_match \<Rightarrow> strip code_block_match
      | None \<Rightarrow>
     (case re_search doctype_pattern response_content of
        Some doctype_match \<Rightarrow> strip doctype_match
      | None \<Rightarrow>
     (let content_stripped = strip response_content
      in if startswith (lower content_stripped) ''<!doctype html''
            \<and> endswith (lower content_stripped) ''</html>''
         then content_stripped
         else strip response_content))))"

section \<open>Python values and exceptions\<close>

datatype pyval =
    PNone
  | PBool bool
  | PInt int
  | PStr string
  | PList "pyval list"

fun truthy :: "pyval \<Rightarrow> bool" where
  "truthy PNone = False"
| "truthy (PBool b) = b"
| "truthy (PInt i) = (i \<noteq> 0)"
| "truthy (PStr s) = (s \<noteq> [])"
| "truthy (PList xs) = (xs \<noteq> [])"

text \<open>
  The messages of the \<open>ValueError\<close>s the service raises. Each constructor stands for one
  message text of the source; the arguments are the values its f-string interpolates.
\<close>

datatype value_error =
    MissingRequiredField string     \<comment> \<open>\<open>Missing required field: {field}\<close>\<close>
  | TemplateNameExists pyval        \<comment> \<open>\<open>Template name '{name}' already exists\<close>\<close>
  | CannotDeleteDefault             \<comment> \<open>\<open>Cannot delete the default template\<close>\<close>
  | ProviderUnavailable             \<comment> \<open>the provider is not configured or not available\<close>
  | EmptyResponse                   \<comment> \<open>the provider returned an empty response\<close>
  | NoHtmlTemplateFound             \<comment> \<open>no usable HTML template in the response\<close>
  | TemplateValidationFailed        \<comment> \<open>the generated HTML template failed validation\<close>
  | NoTemplateAfterRetries          \<comment> \<open>\<open>Failed to generate valid HTML template after all retries\<close>\<close>
  | GeneratedTemplateInvalid        \<comment> \<open>\<open>Generated HTML template is invalid\<close>\<close>
  | AdjustedTemplateInvalid         \<comment> \<open>\<open>Adjusted HTML template is invalid\<close>\<close>

text \<open>
  Exceptions of class \<open>Exception\<close>: the ones the service raises itself, the ones Python
  raises on a missing key, a missing attribute, \<open>len(None)\<close> and a zero divisor, and
  whatever a collaborator (persistence, provider, configuration) raises.
\<close>

datatype exn =
    ValueError value_error
  | KeyError string
  | TypeError
  | AttributeError
  | ZeroDivisionError
  | CollaboratorError string

definition validate_checks :: "pyval \<Rightarrow> exn + bool" where
  \<comment> \<open>the body of the \<open>try\<close> of \<open>_validate_html_template\<close>; only a \<open>str\<close> has \<open>strip\<close>\<close>
  "validate_checks html_content =
     (if \<not> truthy html_content then Inr False
      else case html_content of
        PStr s \<Rightarrow>
          (if strip s = [] then Inr False
           else
             let html_lower = strip (lower s) in
             if \<not> startswith html_lower ''<!doctype html'' then Inr False
             else if \<not> contains html_lower ''</html>'' then Inr False
             else
               let required_elements =
                     [(''<head>'', ''<head''), (''<body>'', ''<body''), (''<title>'', ''<title'')];
                   missing_elements =
                     map fst (filter (\<lambda>(element_name, element_pattern).
                                        \<not> contains html_lower element_pattern) required_elements)
               in if missing_elements \<noteq> [] then Inr False else Inr True)
      | _ \<Rightarrow> Inl AttributeError)"

definition validate_html_template :: "pyval \<Rightarrow> bool" where
  \<comment> \<open>\<open>except Exception: return False\<close>\<close>
  "validate_html_template html_content =
     (case validate_checks html_content of Inl e \<Rightarrow> False | Inr b \<Rightarrow> b)"

section \<open>The persistence collaborator and the CRUD operations\<close>

record template =
  id' :: int
  template_name :: string
  description :: string
  html_template :: string
  preview_image :: string
  style_config :: pyval
  tags :: "string list"
  is_default :: bool
  is_active :: bool
  usage_count :: int
  created_by :: string
  created_at :: string
  updated_at :: string

type_synonym pydict = "(string \<times> pyval) list"

definition dict_get :: "pydict \<Rightarrow> string \<Rightarrow> pyval" where
  \<comment> \<open>\<open>d.get(k)\<close>\<close>
  "dict_get d k = (case map_of d k of None \<Rightarrow> PNone | Some v \<Rightarrow> v)"

definition has_key :: "pydict \<Rightarrow> string \<Rightarrow> bool" where
  \<comment> \<open>\<open>k in d\<close>\<close>
  "has_key d k = (map_of d k \<noteq> None)"

definition setdefault :: "string \<Rightarrow> pyval \<Rightarrow> pydict \<Rightarrow> pydict" where
  "setdefault k v d = (if has_key d k then d else AList.update k v d)"

text \<open>
  \<open>DatabaseService\<close> is not part of this file: the model takes its methods as functions
  that return a value or raise, and records every call the service issues.
  \<open>_generate_preview_image\<close> and \<open>_extract_style_config\<close> never raise; their values
  play no part in the checks below and are taken as functions too.
\<close>

record database_service =
  get_global_master_template_by_id :: "int \<Rightarrow> exn + template option"
  get_global_master_template_by_name :: "pyval \<Rightarrow> exn + template option"
  create_global_master_template :: "pydict \<Rightarrow> exn + template"
  update_global_master_template :: "int \<Rightarrow> pydict \<Rightarrow> exn + bool"
  delete_global_master_template :: "int \<Rightarrow> exn + bool"
  get_global_master_templates_paginated ::
    "bool \<Rightarrow> int \<Rightarrow> int \<Rightarrow> string option \<Rightarrow> exn + (template list \<times> int)"
  get_global_master_templates_by_tags_paginated ::
    "string list \<Rightarrow> bool \<Rightarrow> int \<Rightarrow> int \<Rightarrow> string option \<Rightarrow> exn + (template list \<times> int)"

record helpers =
  generate_preview_image :: "pyval \<Rightarrow> pyval"
  extract_style_config :: "pyval \<Rightarrow> pyval"

datatype db_call =
    GetById int
  | GetByName pyval
  | Create pydict
  | Update int pydict
  | Delete int
  | Paginated bool int int "string option"
  | ByTagsPaginated "string list" bool int int "string option"

definition template_summary :: "template \<Rightarrow> pydict" where
  \<comment> \<open>the dictionary the listing and creating operations build from a record\<close>
  "template_summary t =
     [(''id'', PInt (id' t)),
      (''template_name'', PStr (template_name t)),
      (''description'', PStr (description t)),
      (''preview_image'', PStr (preview_image t)),
      (''tags'', PList (map PStr (tags t))),
      (''is_default'', PBool (is_default t)),
      (''is_active'', PBool (is_active t)),
      (''usage_count'', PInt (usage_count t)),
      (''created_by'', PStr (created_by t)),
      (''created_at'', PStr (created_at t)),
      (''updated_at'', PStr (updated_at t))]"

definition required_fields :: "string list" where
  "required_fields = [''template_name'', ''html_template'']"

definition create_defaults :: "helpers \<Rightarrow> pydict \<Rightarrow> pydict" where
  \<comment> \<open>preview image and style configuration when absent or empty, then the five
      \<open>setdefault\<close> calls\<close>
  "create_defaults h template_data =
     (let d1 = (if \<not> truthy (dict_get template_data ''preview_image'')
                then AList.update ''preview_image''
                       (generate_preview_image h (dict_get template_data ''html_template''))
                       template_data
                else template_data);
          d2 = (if \<not> truthy (dict_get d1 ''style_config'')
                then AList.update ''style_config''
                       (extract_style_config h (dict_get d1 ''html_template'')) d1
                else d1)
      in setdefault ''created_by'' (PStr ''system'')
           (setdefault ''is_active'' (PBool True)
             (setdefault ''is_default'' (PBool False)
               (setdefault ''tags'' (PList [])
                 (setdefault ''description'' (PStr []) d2)))))"

definition create_template ::
  "(exn + unit) \<Rightarrow> database_service \<Rightarrow> helpers \<Rightarrow> pydict \<Rightarrow> db_call list \<times> (exn + pydict)" where
  \<comment> \<open>the first argument is the outcome of \<open>ai_config.get_model_config_for_role\<close>; the
      handler of the source logs and re-raises, so an exception is the result as it is\<close>
  "create_template template_settings db h template_data =
     (case template_settings of
        Inl e \<Rightarrow> ([], Inl e)
      | Inr _ \<Rightarrow>
     (case find (\<lambda>field. \<not> truthy (dict_get template_data field)) required_fields of
        Some field \<Rightarrow> ([], Inl (ValueError (MissingRequiredField field)))
      | None \<Rightarrow>
     (let name = dict_get template_data ''template_name'' in
      case get_global_master_template_by_name db name of
        Inl e \<Rightarrow> ([GetByName name], Inl e)
      | Inr (Some existing) \<Rightarrow> ([GetByName name], Inl (ValueError (TemplateNameExists name)))
      | Inr None \<Rightarrow>
          (let data = create_defaults h template_data in
           case create_global_master_template db data of
             Inl e \<Rightarrow> ([GetByName name, Create data], Inl e)
           | Inr t \<Rightarrow> ([GetByName name, Create data], Inr (template_summary t))))))"

definition update_derived :: "helpers \<Rightarrow> pydict \<Rightarrow> pydict" where
  \<comment> \<open>preview image and style configuration follow a new \<open>html_template\<close> unless given\<close>
  "update_derived h update_data =
     (let d1 = (if has_key update_data ''html_template'' \<and> \<not> has_key update_data ''preview_image''
                then AList.update ''preview_image''
                       (generate_preview_image h (dict_get update_data ''html_template''))
                       update_data
                else update_data)
      in if has_key d1 ''html_template'' \<and> \<not> has_key d1 ''style_config''
         then AList.update ''style_config''
                (extract_style_config h (dict_get d1 ''html_template'')) d1
         else d1)"

definition update_template ::
  "database_service \<Rightarrow> helpers \<Rightarrow> int \<Rightarrow> pydict \<Rightarrow> db_call list \<times> (exn + bool)" where
  "update_template db h template_id update_data =
     (let name = dict_get update_data ''template_name'';
          (lookup, conflict) =
            (if has_key update_data ''template_name''
             then ([GetByName name],
                   (case get_global_master_template_by_name db name of
                      Inl e \<Rightarrow> Some e
                    | Inr None \<Rightarrow> None
                    | Inr (Some existing) \<Rightarrow>
                        (if id' existing \<noteq> template_id
                         then Some (ValueError (TemplateNameExists name)) else None)))
             else ([], None))
      in case conflict of
           Some e \<Rightarrow> (lookup, Inl e)
         | None \<Rightarrow>
             (let data = update_derived h update_data
              in (lookup @ [Update template_id data],
                  update_global_master_template db template_id data)))"

definition delete_template :: "database_service \<Rightarrow> int \<Rightarrow> db_call list \<times> (exn + bool)" where
  "delete_template db template_id =
     (case get_global_master_template_by_id db template_id of
        Inl e \<Rightarrow> ([GetById template_id], Inl e)
      | Inr None \<Rightarrow> ([GetById template_id], Inr False)
      | Inr (Some t) \<Rightarrow>
          (if is_default t
           then ([GetById template_id], Inl (ValueError CannotDeleteDefault))
           else ([GetById template_id, Delete template_id],
                 delete_global_master_template db template_id)))"

record pagination =
  current_page :: int
  page_size :: int
  total_count :: int
  total_pages :: int
  has_next :: bool
  has_prev :: bool

definition pagination_info :: "int \<Rightarrow> int \<Rightarrow> int \<Rightarrow> exn + pagination" where
  \<comment> \<open>\<open>//\<close> is floor division and raises on a zero divisor\<close>
  "pagination_info page page_sz total_cnt =
     (if page_sz = 0 then Inl ZeroDivisionError
      else
        let pages = (total_cnt + page_sz - 1) div page_sz
        in Inr \<lparr> current_page = page, page_size = page_sz, total_count = total_cnt,
                 total_pages = pages, has_next = (page < pages), has_prev = (page > 1) \<rparr>)"

definition get_all_templates_paginated ::
  "database_service \<Rightarrow> bool \<Rightarrow> int \<Rightarrow> int \<Rightarrow> string option
     \<Rightarrow> db_call list \<times> (exn + (pydict list \<times> pagination))" where
  "get_all_templates_paginated db active_only page page_sz search =
     (let offset = (page - 1) * page_sz;
          call = Paginated active_only offset page_sz search
      in case get_global_master_templates_paginated db active_only offset page_sz search of
           Inl e \<Rightarrow> ([call], Inl e)
         | Inr (templates, total_cnt) \<Rightarrow>
             (case pagination_info page page_sz total_cnt of
                Inl e \<Rightarrow> ([call], Inl e)
              | Inr info \<Rightarrow> ([call], Inr (map template_summary templates, info))))"

definition get_templates_by_tags_paginated ::
  "database_service \<Rightarrow> string list \<Rightarrow> bool \<Rightarrow> int \<Rightarrow> int \<Rightarrow> string option
     \<Rightarrow> db_call list \<times> (exn + (pydict list \<times> pagination))" where
  "get_templates_by_tags_paginated db tag_list active_only page page_sz search =
     (let offset = (page - 1) * page_sz;
          call = ByTagsPaginated tag_list active_only offset page_sz search
      in case get_global_master_templates_by_tags_paginated db tag_list active_only offset
                page_sz search of
           Inl e \<Rightarrow> ([call], Inl e)
         | Inr (templates, total_cnt) \<Rightarrow>
             (case pagination_info page page_sz total_cnt of
                Inl e \<Rightarrow> ([call], Inl e)
              | Inr info \<Rightarrow> ([call], Inr (map template_summary templates, info))))"

section \<open>Prompt building\<close>

text \<open>
  The prompt texts are fixed templates with holes. A constructor stands for one
  template of the source and carries what fills its holes: the user's prompt, and for
  the templates that go with a reference image the instruction paragraph chosen by the
  generation mode.
\<close>

datatype mode_instruction =
    ReferenceStyleInstruction   \<comment> \<open>the paragraph chosen for \<open>reference_style\<close>\<close>
  | OneToOneInstruction         \<comment> \<open>the paragraph of the \<open>else\<close> branch\<close>

datatype ai_prompt =
    TextOnlyPrompt string
  | ReferencePrompt mode_instruction string
  | StreamReferencePrompt mode_instruction string
  | AdjustPrompt string string

datatype part = TextPart ai_prompt | ImageUrlPart string

datatype message_content =
    StrContent ai_prompt          \<comment> \<open>\<open>{"role": "user", "content": ai_prompt}\<close>\<close>
  | PartsContent "part list"      \<comment> \<open>\<open>{"role": "user", "content": [...]}\<close>\<close>

datatype ai_content = TextContent ai_prompt | ImageContent string

type_synonym ai_message = "ai_content list"

type_synonym image_dict = "(string \<times> string) list"

definition no_reference_image :: "image_dict option \<Rightarrow> bool" where
  \<comment> \<open>\<open>not reference_image\<close>: \<open>None\<close> or the empty dictionary\<close>
  "no_reference_image reference_image =
     (case reference_image of None \<Rightarrow> True | Some d \<Rightarrow> d = [])"

definition image_entries :: "image_dict option \<Rightarrow> image_dict" where
  "image_entries reference_image = (case reference_image of None \<Rightarrow> [] | Some d \<Rightarrow> d)"

definition generation_messages ::
  "string \<Rightarrow> string \<Rightarrow> image_dict option \<Rightarrow> exn + message_content list" where
  \<comment> \<open>the messages \<open>generate_template_with_ai\<close> builds before its \<open>try\<close>\<close>
  "generation_messages prompt generation_mode reference_image =
     (if generation_mode = ''text_only'' \<or> no_reference_image reference_image
      then Inr [StrContent (TextOnlyPrompt prompt)]
      else
        let mode_instruction =
              (if generation_mode = ''reference_style'' then ReferenceStyleInstruction
               else OneToOneInstruction);
            ai_prompt = ReferencePrompt mode_instruction prompt
        in case map_of (image_entries reference_image) ''data'' of
             None \<Rightarrow> Inl (KeyError ''data'')
           | Some image_data \<Rightarrow>
               (if startswith image_data ''data:''
                then Inr [PartsContent [TextPart ai_prompt, ImageUrlPart image_data]]
                else case map_of (image_entries reference_image) ''type'' of
                       None \<Rightarrow> Inl (KeyError ''type'')
                     | Some image_type \<Rightarrow>
                         Inr [PartsContent
                                [TextPart ai_prompt,
                                 ImageUrlPart (''data:'' @ image_type @ '';base64,'' @ image_data)]]))"

fun convert_part :: "part \<Rightarrow> ai_content list" where
  "convert_part (TextPart t) = [TextContent t]"
| "convert_part (ImageUrlPart image_url) =
     (if startswith image_url ''data:'' then [ImageContent image_url] else [])"

fun convert_message :: "message_content \<Rightarrow> ai_message" where
  "convert_message (StrContent t) = [TextContent t]"
| "convert_message (PartsContent ps) = concat (map convert_part ps)"

section \<open>The provider collaborator\<close>

text \<open>
  A blocking completion returns the \<open>content\<close> of a response (\<open>None\<close> when the response
  has none) or raises. A streaming completion yields chunks and then ends or raises; the
  two streaming methods may be absent (\<open>hasattr\<close>). The chat completion is scripted by the
  number of calls made before, so that one stub can answer successive attempts
  differently. Resolving the role provider may raise, and may yield no provider.
\<close>

type_synonym completion = "exn + string option"

type_synonym chunk_stream = "string list \<times> exn option"

record provider =
  chat_completion :: "ai_message list \<Rightarrow> nat \<Rightarrow> completion"
  text_completion :: "ai_prompt \<Rightarrow> completion"
  stream_text_completion :: "(ai_prompt \<Rightarrow> chunk_stream) option"
  stream_chat_completion :: "(ai_message list \<Rightarrow> chunk_stream) option"

type_synonym role_provider = "exn + provider option"

section \<open>Blocking generation\<close>

datatype description_text =
    Description string
  | DefaultDescription string     \<comment> \<open>the default built from \<open>prompt[:100]\<close>\<close>

datatype tag_list =
    Tags "string list"
  | DefaultTags                   \<comment> \<open>the single default tag\<close>

record generation_result =
  res_html_template :: string
  res_template_name :: string
  res_description :: description_text
  res_tags :: tag_list
  res_llm_response :: "string option"

definition description_or_default :: "string \<Rightarrow> string \<Rightarrow> description_text" where
  "description_or_default desc prompt =
     (if desc = [] then DefaultDescription (take 100 prompt) else Description desc)"

definition tags_or_default :: "string list option \<Rightarrow> tag_list" where
  "tags_or_default tgs =
     (case tgs of None \<Rightarrow> DefaultTags | Some ts \<Rightarrow> if ts = [] then DefaultTags else Tags ts)"

definition max_retries :: nat where
  "max_retries = 5"

datatype loop_control = Continue | Break

type_synonym loop_state = "string option \<times> string option"
  \<comment> \<open>the variables \<open>full_response\<close> and \<open>html_template\<close>\<close>

definition attempt_body :: "nat \<Rightarrow> completion \<Rightarrow> loop_state \<Rightarrow> loop_state \<times> (exn + loop_control)" where
  \<comment> \<open>the \<open>try\<close> body of one attempt, given the outcome of its provider call; the log line
      \<open>len(full_response)\<close> raises on \<open>None\<close>\<close>
  "attempt_body attempt ai_response st =
     (case ai_response of
        Inl e \<Rightarrow> (st, Inl e)
      | Inr None \<Rightarrow> ((None, snd st), Inl TypeError)
      | Inr (Some full_response) \<Rightarrow>
          (if full_response = [] \<or> strip full_response = []
           then ((Some full_response, snd st),
                 if attempt < max_retries - 1 then Inr Continue
                 else Inl (ValueError EmptyResponse))
           else if length full_response < 2000 \<and> attempt < max_retries - 1
           then ((Some full_response, snd st), Inr Continue)
           else
             let html = extract_html_from_response full_response;
                 st' = (Some full_response, Some html)
             in if html = [] \<or> strip html = []
                then (st', if attempt < max_retries - 1 then Inr Continue
                           else Inl (ValueError NoHtmlTemplateFound))
                else if \<not> validate_html_template (PStr html)
                then (st', if attempt < max_retries - 1 then Inr Continue
                           else Inl (ValueError TemplateValidationFailed))
                else (st', Inr Break)))"

fun attempts_loop ::
  "(nat \<Rightarrow> completion) \<Rightarrow> nat list \<Rightarrow> nat \<Rightarrow> loop_state \<Rightarrow> nat \<times> (exn + loop_state)" where
  \<comment> \<open>\<open>for attempt in range(max_retries)\<close>; the third argument counts the provider calls\<close>
  "attempts_loop chat [] calls st = (calls, Inr st)"
| "attempts_loop chat (attempt # rest) calls st =
     (case attempt_body attempt (chat calls) st of
        (st', Inr Break) \<Rightarrow> (Suc calls, Inr st')
      | (st', Inr Continue) \<Rightarrow> attempts_loop chat rest (Suc calls) st'
      | (st', Inl e) \<Rightarrow>
          (if attempt < max_retries - 1 then attempts_loop chat rest (Suc calls) st'
           else (Suc calls, Inl e)))"

definition generate_template_with_ai ::
  "role_provider \<Rightarrow> string \<Rightarrow> string \<Rightarrow> string \<Rightarrow> string list option \<Rightarrow> string
     \<Rightarrow> image_dict option \<Rightarrow> nat \<times> (exn + generation_result)" where
  \<comment> \<open>returns the number of provider calls made and the result or the exception raised\<close>
  "generate_template_with_ai role prompt name desc tgs generation_mode reference_image =
     (case generation_messages prompt generation_mode reference_image of
        Inl e \<Rightarrow> (0, Inl e)
      | Inr messages \<Rightarrow>
     (case role of
        Inl e \<Rightarrow> (0, Inl e)
      | Inr None \<Rightarrow> (0, Inl (ValueError ProviderUnavailable))
      | Inr (Some p) \<Rightarrow>
          (let ai_messages = map convert_message messages
           in case attempts_loop (chat_completion p ai_messages) [0..<max_retries] 0 (None, None) of
                (calls, Inl e) \<Rightarrow> (calls, Inl e)
              | (calls, Inr (full_response, None)) \<Rightarrow>
                  (calls, Inl (ValueError NoTemplateAfterRetries))
              | (calls, Inr (full_response, Some html)) \<Rightarrow>
                  (if html = [] then (calls, Inl (ValueError NoTemplateAfterRetries))
                   else (calls,
                         Inr \<lparr> res_html_template = html, res_template_name = name,
                               res_description = description_or_default desc prompt,
                               res_tags = tags_or_default tgs,
                               res_llm_response = full_response \<rparr>)))))"

section \<open>Streaming generation and adjustment\<close>

text \<open>
  The generators yield dictionaries with a \<open>type\<close>. A progress event carries a chunk of
  the response or one of the fixed status texts of the source, for which a constructor
  stands. An error event carries \<open>str(e)\<close>; the model keeps the exception \<open>e\<close> it is made
  from.
\<close>

datatype status_line =
    AnalyzingImage          \<comment> \<open>before the full response, reference image attached\<close>
  | AnalyzingRequest        \<comment> \<open>before the full response, text only\<close>
  | Optimizing              \<comment> \<open>after the response, before extraction\<close>
  | Finished                \<comment> \<open>after validation, before the terminal event\<close>
  | AnalyzingAdjustment
  | AdjustmentRequest string
  | StartAdjusting
  | FinishingStreamedAdjustment   \<comment> \<open>after the streamed response, with two leading newlines\<close>
  | FinishingAdjustment           \<comment> \<open>after the blocking call\<close>

datatype content =
    Text string
  | NoneContent             \<comment> \<open>the \<open>content\<close> of a response that has none\<close>
  | Status status_line

datatype payload =
    Generated generation_result
  | Adjusted string string  \<comment> \<open>\<open>html_template\<close> and \<open>template_name\<close>\<close>

datatype event =
    Thinking content        \<comment> \<open>\<open>{'type': 'thinking', 'content': ...}\<close>\<close>
  | Complete payload        \<comment> \<open>\<open>{'type': 'complete', ...}\<close>\<close>
  | Error exn               \<comment> \<open>\<open>{'type': 'error', 'message': str(e)}\<close>\<close>

type_synonym 'a gen = "event list \<times> (exn + 'a)"
  \<comment> \<open>the events a piece of generator code yields, then its value or the exception it raises\<close>

definition content_of :: "string option \<Rightarrow> content" where
  "content_of c = (case c of None \<Rightarrow> NoneContent | Some s \<Rightarrow> Text s)"

definition forward_chunks :: "chunk_stream \<Rightarrow> string option gen" where
  \<comment> \<open>\<open>async for chunk in ...: full_response += chunk; yield thinking(chunk)\<close>\<close>
  "forward_chunks stream =
     (map (\<lambda>chunk. Thinking (Text chunk)) (fst stream),
      case snd stream of Some e \<Rightarrow> Inl e | None \<Rightarrow> Inr (Some (concat (fst stream))))"

definition extract_checked :: "string option \<Rightarrow> exn + string" where
  \<comment> \<open>\<open>_extract_html_from_response\<close> takes \<open>len\<close> of its argument first\<close>
  "extract_checked response_content =
     (case response_content of
        None \<Rightarrow> Inl TypeError
      | Some s \<Rightarrow> Inr (extract_html_from_response s))"

definition image_url_of :: "image_dict option \<Rightarrow> exn + string" where
  \<comment> \<open>the data URL of the streaming operation; the type defaults to \<open>image/png\<close>\<close>
  "image_url_of reference_image =
     (case map_of (image_entries reference_image) ''data'' of
        None \<Rightarrow> Inl (KeyError ''data'')
      | Some image_url \<Rightarrow>
          (if startswith image_url ''data:'' then Inr image_url
           else
             let image_type =
                   (case map_of (image_entries reference_image) ''type'' of
                      None \<Rightarrow> ''image/png'' | Some t \<Rightarrow> t)
             in Inr (''data:'' @ image_type @ '';base64,'' @ image_url)))"

definition stream_prompt :: "string \<Rightarrow> string \<Rightarrow> image_dict option \<Rightarrow> ai_prompt" where
  "stream_prompt prompt generation_mode reference_image =
     (if generation_mode = ''text_only'' \<or> no_reference_image reference_image
      then TextOnlyPrompt prompt
      else StreamReferencePrompt
             (if generation_mode = ''reference_style'' then ReferenceStyleInstruction
              else OneToOneInstruction) prompt)"

definition finish_generation ::
  "string \<Rightarrow> string \<Rightarrow> string \<Rightarrow> string list option \<Rightarrow> string option \<Rightarrow> unit gen" where
  \<comment> \<open>from the status line after the response to the \<open>complete\<close> event\<close>
  "finish_generation prompt name desc tgs full_response =
     (case extract_checked full_response of
        Inl e \<Rightarrow> ([Thinking (Status Optimizing)], Inl e)
      | Inr html \<Rightarrow>
          (if \<not> validate_html_template (PStr html)
           then ([Thinking (Status Optimizing)], Inl (ValueError GeneratedTemplateInvalid))
           else ([Thinking (Status Optimizing), Thinking (Status Finished),
                  Complete (Generated
                    \<lparr> res_html_template = html, res_template_name = name,
                      res_description = description_or_default desc prompt,
                      res_tags = tags_or_default tgs,
                      res_llm_response = full_response \<rparr>)], Inr ())))"

definition reference_image_branch ::
  "provider option \<Rightarrow> ai_prompt \<Rightarrow> image_dict option \<Rightarrow> unit gen" where
  \<comment> \<open>the branch \<open>generation_mode != "text_only" and reference_image\<close>: it ends where the
      response ends\<close>
  "reference_image_branch prov ai_prompt reference_image =
     (case image_url_of reference_image of
        Inl e \<Rightarrow> ([], Inl e)
      | Inr image_url \<Rightarrow>
          (let messages = [[TextContent ai_prompt, ImageContent image_url]] in
           case prov of
             None \<Rightarrow> ([], Inl AttributeError)
           | Some p \<Rightarrow>
               (case stream_chat_completion p of
                  Some stream \<Rightarrow>
                    (case forward_chunks (stream messages) of
                       (evs, Inl e) \<Rightarrow> (evs, Inl e)
                     | (evs, Inr full_response) \<Rightarrow> (evs, Inr ()))
                | None \<Rightarrow>
                    (case chat_completion p messages 0 of
                       Inl e \<Rightarrow> ([], Inl e)
                     | Inr full_response \<Rightarrow>
                         ([Thinking (Status AnalyzingImage),
                           Thinking (content_of full_response)], Inr ())))))"

definition text_response :: "provider option \<Rightarrow> ai_prompt \<Rightarrow> string option gen" where
  \<comment> \<open>the \<open>else\<close> branch up to the full response: streamed, or one blocking call\<close>
  "text_response prov ai_prompt =
     (case prov of
        None \<Rightarrow> ([], Inl AttributeError)
      | Some p \<Rightarrow>
          (case stream_text_completion p of
             Some stream \<Rightarrow> forward_chunks (stream ai_prompt)
           | None \<Rightarrow>
               (case text_completion p ai_prompt of
                  Inl e \<Rightarrow> ([], Inl e)
                | Inr full_response \<Rightarrow>
                    ([Thinking (Status AnalyzingRequest),
                      Thinking (content_of full_response)], Inr full_response))))"

definition generate_stream_body ::
  "role_provider \<Rightarrow> string \<Rightarrow> string \<Rightarrow> string \<Rightarrow> string list option \<Rightarrow> string
     \<Rightarrow> image_dict option \<Rightarrow> unit gen" where
  \<comment> \<open>the body of the \<open>try\<close> of \<open>generate_template_with_ai_stream\<close>; extraction,
      validation and the \<open>complete\<close> event are part of the \<open>else\<close> branch\<close>
  "generate_stream_body role prompt name desc tgs generation_mode reference_image =
     (let ai_prompt = stream_prompt prompt generation_mode reference_image in
      case role of
        Inl e \<Rightarrow> ([], Inl e)
      | Inr prov \<Rightarrow>
          (if generation_mode \<noteq> ''text_only'' \<and> \<not> no_reference_image reference_image
           then reference_image_branch prov ai_prompt reference_image
           else
             (case text_response prov ai_prompt of
                (evs, Inl e) \<Rightarrow> (evs, Inl e)
              | (evs, Inr full_response) \<Rightarrow>
                  (case finish_generation prompt name desc tgs full_response of
                     (evs', r) \<Rightarrow> (evs @ evs', r)))))"

definition catch_all :: "unit gen \<Rightarrow> event list \<times> exn option" where
  \<comment> \<open>\<open>except Exception as e: yield {'type': 'error', 'message': str(e)}\<close>: the events of
      the generator, and the exception that leaves it\<close>
  "catch_all g = (case snd g of Inl e \<Rightarrow> (fst g @ [Error e], None) | Inr u \<Rightarrow> (fst g, None))"

definition generate_template_with_ai_stream ::
  "role_provider \<Rightarrow> string \<Rightarrow> string \<Rightarrow> string \<Rightarrow> string list option \<Rightarrow> string
     \<Rightarrow> image_dict option \<Rightarrow> event list \<times> exn option" where
  "generate_template_with_ai_stream role prompt name desc tgs generation_mode reference_image =
     catch_all (generate_stream_body role prompt name desc tgs generation_mode reference_image)"

definition finish_adjustment :: "string \<Rightarrow> string option \<Rightarrow> unit gen" where
  "finish_adjustment name response_content =
     (case extract_checked response_content of
        Inl e \<Rightarrow> ([], Inl e)
      | Inr html \<Rightarrow>
          (if \<not> validate_html_template (PStr html)
           then ([], Inl (ValueError AdjustedTemplateInvalid))
           else ([Complete (Adjusted html name)], Inr ())))"

definition simulated_progress :: "string \<Rightarrow> event list" where
  "simulated_progress adjustment_request =
     [Thinking (Status AnalyzingAdjustment),
      Thinking (Status (AdjustmentRequest adjustment_request)),
      Thinking (Status StartAdjusting)]"

definition adjust_response ::
  "provider option \<Rightarrow> ai_prompt \<Rightarrow> string \<Rightarrow> (status_line \<times> string option) gen" where
  \<comment> \<open>both branches up to the response, with the status line each yields next; the
      blocking branch yields its three status lines before it calls the provider\<close>
  "adjust_response prov ai_prompt adjustment_request =
     (case prov of
        None \<Rightarrow> (simulated_progress adjustment_request, Inl AttributeError)
      | Some p \<Rightarrow>
          (case stream_text_completion p of
             Some stream \<Rightarrow>
               (case forward_chunks (stream ai_prompt) of
                  (evs, Inl e) \<Rightarrow> (evs, Inl e)
                | (evs, Inr full_response) \<Rightarrow>
                    (evs, Inr (FinishingStreamedAdjustment, full_response)))
           | None \<Rightarrow>
               (case text_completion p ai_prompt of
                  Inl e \<Rightarrow> (simulated_progress adjustment_request, Inl e)
                | Inr response_content \<Rightarrow>
                    (simulated_progress adjustment_request,
                     Inr (FinishingAdjustment, response_content)))))"

definition adjust_stream_body :: "role_provider \<Rightarrow> string \<Rightarrow> string \<Rightarrow> string \<Rightarrow> unit gen" where
  \<comment> \<open>the body of the \<open>try\<close> of \<open>adjust_template_with_ai_stream\<close>; each of its two branches
      goes on to extraction, validation and the \<open>complete\<close> event\<close>
  "adjust_stream_body role current_html adjustment_request name =
     (let ai_prompt = AdjustPrompt current_html adjustment_request
      in case role of
        Inl e \<Rightarrow> ([], Inl e)
      | Inr prov \<Rightarrow>
          (case adjust_response prov ai_prompt adjustment_request of
             (evs, Inl e) \<Rightarrow> (evs, Inl e)
           | (evs, Inr (finishing, response_content)) \<Rightarrow>
               (case finish_adjustment name response_content of
                  (evs', r) \<Rightarrow> (evs @ [Thinking (Status finishing)] @ evs', r))))"

definition adjust_template_with_ai_stream ::
  "role_provider \<Rightarrow> string \<Rightarrow> string \<Rightarrow> string \<Rightarrow> event list \<times> exn option" where
  "adjust_template_with_ai_stream role current_html adjustment_request name =
     catch_all (adjust_stream_body role current_html adjustment_request name)"

definition is_terminal :: "event \<Rightarrow> bool" where
  "is_terminal ev = (case ev of Thinking c \<Rightarrow> False | Complete p \<Rightarrow> True | Error e \<Rightarrow> True)"

definition one_terminal_at_end :: "event list \<Rightarrow> bool" where
  \<comment> \<open>the last event is terminal and no event before it is\<close>
  "one_terminal_at_end evs =
     (evs \<noteq> [] \<and> is_terminal (last evs) \<and> filter is_terminal (butlast evs) = [])"

section \<open>When an attempt of blocking generation ends the retry loop\<close>

text \<open>
  These two predicates are not part of the source; they name the conditions under which
  the statements about the retry loop are made. An attempt succeeds when its response is
  text that is not blank, is at least 2000 characters long unless the attempt is the
  last one, and yields a candidate that is not blank and validates.
\<close>

definition attempt_succeeds :: "nat \<Rightarrow> completion \<Rightarrow> bool" where
  "attempt_succeeds attempt ai_response =
     (case ai_response of
        Inl e \<Rightarrow> False
      | Inr None \<Rightarrow> False
      | Inr (Some s) \<Rightarrow>
          strip s \<noteq> []
          \<and> (2000 \<le> length s \<or> attempt = max_retries - 1)
          \<and> strip (extract_html_from_response s) \<noteq> []
          \<and> validate_html_template (PStr (extract_html_from_response s)))"

definition blank_response :: "completion \<Rightarrow> bool" where
  "blank_response ai_response =
     (case ai_response of Inl e \<Rightarrow> False | Inr None \<Rightarrow> False | Inr (Some s) \<Rightarrow> strip s = [])"

section \<open>What the patterns denote\<close>

text \<open>
  The words a flat pattern matches, with the text of the group, stated without any
  matching order: a star stands for any run of characters of its class, greedy or lazy.
  The matcher above is compared with this denotation below; it is not part of the source.
\<close>

definition grouped :: "bool \<Rightarrow> string \<Rightarrow> string \<Rightarrow> string" where
  "grouped g u x = (if g then u @ x else x)"

fun accepts :: "bool \<Rightarrow> item list \<Rightarrow> string \<Rightarrow> string \<Rightarrow> bool" where
  "accepts g [] w x = (w = [] \<and> x = [])"
| "accepts g (GroupOpen # r) w x = accepts True r w x"
| "accepts g (GroupClose # r) w x = accepts False r w x"
| "accepts g (One a # r) w x =
     (\<exists>c w' x'. w = c # w' \<and> atom_ok a c \<and> x = grouped g [c] x' \<and> accepts g r w' x')"
| "accepts g (Greedy a # r) w x =
     (\<exists>u w' x'. w = u @ w' \<and> list_all (atom_ok a) u \<and> x = grouped g u x' \<and> accepts g r w' x')"
| "accepts g (Lazy a # r) w x =
     (\<exists>u w' x'. w = u @ w' \<and> list_all (atom_ok a) u \<and> x = grouped g u x' \<and> accepts g r w' x')"

text \<open>
  The three layers of the extraction in words of the text alone: a fenced block tagged
  \<open>html\<close> whose content, without the whitespace around it, is \<open>g\<close>; a fenced block with
  any tag of letters whose content, without the whitespace around it, is a document \<open>g\<close>;
  a document \<open>g\<close> anywhere in the text. A document starts with \<open><!DOCTYPE html\<close> and ends
  with \<open></html>\<close>, in any case of the letters.
\<close>

definition is_document :: "string \<Rightarrow> bool" where
  "is_document g =
     (\<exists>d b h. g = d @ b @ h \<and> lower d = ''<!doctype html'' \<and> lower h = ''</html>'')"

definition fenced_html :: "string \<Rightarrow> string \<Rightarrow> bool" where
  "fenced_html txt g =
     (\<exists>a w1 w2 c. txt = a @ fence @ ''html'' @ w1 @ g @ w2 @ fence @ c
        \<and> list_all isspace w1 \<and> list_all isspace w2)"

definition fenced_document :: "string \<Rightarrow> string \<Rightarrow> bool" where
  "fenced_document txt g =
     (\<exists>a l w1 w2 c. txt = a @ fence @ l @ w1 @ g @ w2 @ fence @ c
        \<and> list_all isalpha_ascii l \<and> list_all isspace w1 \<and> list_all isspace w2
        \<and> is_document g)"

definition bare_document :: "string \<Rightarrow> string \<Rightarrow> bool" where
  "bare_document txt g = (\<exists>a c. txt = a @ g @ c \<and> is_document g)"

section \<open>Concrete collaborators and inputs\<close>

definition example_template :: "int \<Rightarrow> string \<Rightarrow> bool \<Rightarrow> template" where
  "example_template i n dflt =
     \<lparr> id' = i, template_name = n, description = [], html_template = ''<!DOCTYPE html>'',
       preview_image = [], style_config = PNone, tags = [], is_default = dflt,
       is_active = True, usage_count = 0, created_by = ''system'', created_at = [],
       updated_at = [] \<rparr>"

definition example_db :: database_service where
  \<comment> \<open>record 1 is the default template ``Default'', record 2 is ``Taken'', 13 records match
      every listing\<close>
  "example_db =
     \<lparr> get_global_master_template_by_id =
         (\<lambda>i. if i = 1 then Inr (Some (example_template 1 ''Default'' True))
              else if i = 2 then Inr (Some (example_template 2 ''Taken'' False))
              else Inr None),
       get_global_master_template_by_name =
         (\<lambda>n. if n = PStr ''Default'' then Inr (Some (example_template 1 ''Default'' True))
              else if n = PStr ''Taken'' then Inr (Some (example_template 2 ''Taken'' False))
              else Inr None),
       create_global_master_template = (\<lambda>d. Inr (example_template 3 ''New'' False)),
       update_global_master_template = (\<lambda>i d. Inr True),
       delete_global_master_template = (\<lambda>i. Inr True),
       get_global_master_templates_paginated = (\<lambda>active_only offset limit search. Inr ([], 13)),
       get_global_master_templates_by_tags_paginated =
         (\<lambda>tag_list active_only offset limit search. Inr ([], 13)) \<rparr>"

definition example_helpers :: helpers where
  "example_helpers =
     \<lparr> generate_preview_image = (\<lambda>html. PStr ''data:image/svg+xml;base64,''),
       extract_style_config = (\<lambda>html. PNone) \<rparr>"

definition example_document :: string where
  "example_document =
     ''<!DOCTYPE html><html><head><title>t</title></head><body></body></html>''"

definition untitled_document :: string where
  "untitled_document = ''<!DOCTYPE html><html><head></head><body></body></html>''"

definition new_template_data :: pydict where
  "new_template_data = [(''template_name'', PStr ''New''), (''html_template'', PStr example_document)]"

definition reference_png :: image_dict where
  "reference_png = [(''data'', ''data:image/png;base64,AAAA''), (''type'', ''image/png'')]"

definition blocking_provider :: provider where
  \<comment> \<open>no streaming methods; every completion returns the example document\<close>
  "blocking_provider =
     \<lparr> chat_completion = (\<lambda>messages n. Inr (Some example_document)),
       text_completion = (\<lambda>ai_prompt. Inr (Some example_document)),
       stream_text_completion = None,
       stream_chat_completion = None \<rparr>"

definition failing_provider :: provider where
  \<comment> \<open>every call raises; the streams raise after one chunk\<close>
  "failing_provider =
     \<lparr> chat_completion = (\<lambda>messages n. Inl (CollaboratorError ''unavailable'')),
       text_completion = (\<lambda>ai_prompt. Inl (CollaboratorError ''unavailable'')),
       stream_text_completion = Some (\<lambda>ai_prompt. ([''<!DOC''], Some (CollaboratorError ''unavailable''))),
       stream_chat_completion = Some (\<lambda>messages. ([''<!DOC''], Some (CollaboratorError ''unavailable''))) \<rparr>"

definition padding :: string where
  \<comment> \<open>2000 spaces\<close>
  "padding = replicate 2000 CHR '' ''"

definition long_document :: string where
  \<comment> \<open>a response of more than 2000 characters that holds a valid document\<close>
  "long_document = padding @ example_document"

definition long_text :: string where
  \<comment> \<open>a response of more than 2000 characters without any HTML\<close>
  "long_text = padding @ ''no template here''"

definition provider_of_chat :: "(nat \<Rightarrow> completion) \<Rightarrow> provider" where
  "provider_of_chat chat =
     \<lparr> chat_completion = (\<lambda>messages. chat),
       text_completion = (\<lambda>ai_prompt. chat 0),
       stream_text_completion = None,
       stream_chat_completion = None \<rparr>"

definition short_first_chat :: "nat \<Rightarrow> completion" where
  \<comment> \<open>the first call returns the (short) example document, every later call nothing\<close>
  "short_first_chat n = (if n = 0 then Inr (Some example_document) else Inr (Some []))"

definition recovering_chat :: "nat \<Rightarrow> completion" where
  \<comment> \<open>the first two calls return text without HTML, every later call a long document\<close>
  "recovering_chat n = (if n < 2 then Inr (Some long_text) else Inr (Some long_document))"

definition empty_chat :: "nat \<Rightarrow> completion" where
  "empty_chat n = Inr (Some [])"

definition last_attempt_chat :: "nat \<Rightarrow> completion" where
  \<comment> \<open>four answers without a template (blank, raising, no content, plain text), then the
      example document\<close>
  "last_attempt_chat n =
     (if n = 0 then Inr (Some ''  '')
      else if n = 1 then Inl (CollaboratorError ''timeout'')
      else if n = 2 then Inr None
      else if n = 3 then Inr (Some ''no template here'')
      else Inr (Some example_document))"

definition fenced_html_text :: string where
  "fenced_html_text = ''See: '' @ fence @ ''html <p>x</p> '' @ fence @ '' done''"

definition fenced_document_text :: string where
  "fenced_document_text = fence @ ''xml <!DOCTYPE html><html></html> '' @ fence"

definition bare_document_text :: string where
  "bare_document_text = ''Hi <!doctype html><html></HTML> bye''"

section \<open>Pagination\<close>

lemma ceil_div:
  assumes p: "1 \<le> (p::int)"
  shows "(t + p - 1) div p = \<lceil>real_of_int t / real_of_int p\<rceil>"
proof -
  define z where "z = (t + p - 1) div p"
  have p0: "0 < p" using p by simp
  have split: "t + p - 1 = z * p + (t + p - 1) mod p"
    unfolding z_def by simp
  have r: "0 \<le> (t + p - 1) mod p" "(t + p - 1) mod p < p"
    using p0 by simp_all
  have up: "t \<le> z * p" using split r by linarith
  have lo: "(z - 1) * p < t" using split r by (simp add: algebra_simps)
  have "real_of_int t \<le> real_of_int (z * p)" using up by (simp only: of_int_le_iff)
  then have c: "real_of_int t / real_of_int p \<le> real_of_int z"
    using p0 by (simp add: divide_le_eq)
  have "real_of_int ((z - 1) * p) < real_of_int t" using lo by (simp only: of_int_less_iff)
  then have d: "real_of_int z - 1 < real_of_int t / real_of_int p"
    using p0 by (simp add: less_divide_eq algebra_simps)
  have "\<lceil>real_of_int t / real_of_int p\<rceil> = z"
    using c d by (intro ceiling_unique) simp_all
  then show ?thesis by (simp add: z_def)
qed

text \<open>
  Claim C9. For every page and page size of at least 1 and every non-negative total count
  that the collaborator returns, both paginated listings report
  \<open>total_pages = \<lceil>total_count / page_size\<rceil>\<close>, computed as
  \<open>(total_count + page_size - 1) // page_size\<close>, \<open>has_next = (page < total_pages)\<close> and
  \<open>has_prev = (page > 1)\<close>.
\<close>

theorem pagination_arithmetic:
  assumes "1 \<le> page" and "1 \<le> page_sz" and "0 \<le> total_cnt"
    and "get_global_master_templates_paginated db active_only ((page - 1) * page_sz) page_sz search
           = Inr (ts, total_cnt)"
    and "get_global_master_templates_by_tags_paginated db tag_list active_only
           ((page - 1) * page_sz) page_sz search = Inr (ts', total_cnt)"
  shows "snd (get_all_templates_paginated db active_only page page_sz search)
           = Inr (map template_summary ts,
                  \<lparr> current_page = page, page_size = page_sz, total_count = total_cnt,
                    total_pages = \<lceil>real_of_int total_cnt / real_of_int page_sz\<rceil>,
                    has_next = (page < \<lceil>real_of_int total_cnt / real_of_int page_sz\<rceil>),
                    has_prev = (page > 1) \<rparr>)
       \<and> snd (get_templates_by_tags_paginated db tag_list active_only page page_sz search)
           = Inr (map template_summary ts',
                  \<lparr> current_page = page, page_size = page_sz, total_count = total_cnt,
                    total_pages = \<lceil>real_of_int total_cnt / real_of_int page_sz\<rceil>,
                    has_next = (page < \<lceil>real_of_int total_cnt / real_of_int page_sz\<rceil>),
                    has_prev = (page > 1) \<rparr>)
       \<and> \<lceil>real_of_int total_cnt / real_of_int page_sz\<rceil> = (total_cnt + page_sz - 1) div page_sz"
proof -
  have c: "(total_cnt + page_sz - 1) div page_sz = \<lceil>real_of_int total_cnt / real_of_int page_sz\<rceil>"
    by (rule ceil_div [OF assms(2)])
  have nz: "page_sz \<noteq> 0" using assms(2) by simp
  have "snd (get_all_templates_paginated db active_only page page_sz search)
           = Inr (map template_summary ts,
                  \<lparr> current_page = page, page_size = page_sz, total_count = total_cnt,
                    total_pages = \<lceil>real_of_int total_cnt / real_of_int page_sz\<rceil>,
                    has_next = (page < \<lceil>real_of_int total_cnt / real_of_int page_sz\<rceil>),
                    has_prev = (page > 1) \<rparr>)"
    using assms(4) nz by (simp add: get_all_templates_paginated_def pagination_info_def Let_def c)
  moreover have "snd (get_templates_by_tags_paginated db tag_list active_only page page_sz search)
           = Inr (map template_summary ts',
                  \<lparr> current_page = page, page_size = page_sz, total_count = total_cnt,
                    total_pages = \<lceil>real_of_int total_cnt / real_of_int page_sz\<rceil>,
                    has_next = (page < \<lceil>real_of_int total_cnt / real_of_int page_sz\<rceil>),
                    has_prev = (page > 1) \<rparr>)"
    using assms(5) nz by (simp add: get_templates_by_tags_paginated_def pagination_info_def Let_def c)
  ultimately show ?thesis using c by simp
qed

text \<open>
  With a page size of 6 and 13 records there are 3 pages; page 3 has a previous and no next
  page, page 1 has no previous page.
\<close>

theorem pagination_arithmetic_witness:
  "snd (get_all_templates_paginated example_db True 3 6 None)
     = Inr ([], \<lparr> current_page = 3, page_size = 6, total_count = 13, total_pages = 3,
                  has_next = False, has_prev = True \<rparr>)
   \<and> snd (get_templates_by_tags_paginated example_db [] True 1 6 None)
     = Inr ([], \<lparr> current_page = 1, page_size = 6, total_count = 13, total_pages = 3,
                  has_next = True, has_prev = False \<rparr>)"
proof -
  have a: "get_global_master_templates_paginated example_db True ((3 - 1) * 6) 6 None = Inr ([], 13)"
    and b: "get_global_master_templates_by_tags_paginated example_db [] True ((3 - 1) * 6) 6 None = Inr ([], 13)"
    and c: "get_global_master_templates_paginated example_db True ((1 - 1) * 6) 6 None = Inr ([], 13)"
    and d: "get_global_master_templates_by_tags_paginated example_db [] True ((1 - 1) * 6) 6 None = Inr ([], 13)"
    by (simp_all add: example_db_def)
  have p3: "(1::int) \<le> 3" and p1: "(1::int) \<le> 1" and p6: "(1::int) \<le> 6" and p13: "(0::int) \<le> 13"
    by simp_all
  note w3 = pagination_arithmetic [OF p3 p6 p13 a b]
  note w1 = pagination_arithmetic [OF p1 p6 p13 c d]
  have e: "\<lceil>real_of_int 13 / real_of_int 6\<rceil> = (3::int)"
    using w3 [THEN conjunct2, THEN conjunct2] by simp
  show ?thesis
    using w3 [THEN conjunct1] w1 [THEN conjunct2, THEN conjunct1] unfolding e
    by simp
qed

section \<open>Deleting, creating and renaming templates\<close>

text \<open>
  Claim C7. Deleting the record that holds the default flag raises the \<open>ValueError\<close> of
  the default template after the lookup alone, with no delete call to the collaborator;
  deleting an id that the lookup does not find returns \<open>False\<close> without raising; deleting
  an existing record without the default flag issues the delete call and returns what the
  collaborator returns.
\<close>

theorem delete_template_cases:
  "(get_global_master_template_by_id db template_id = Inr (Some t) \<and> is_default t
      \<longrightarrow> delete_template db template_id = ([GetById template_id], Inl (ValueError CannotDeleteDefault)))
   \<and> (get_global_master_template_by_id db template_id = Inr None
      \<longrightarrow> delete_template db template_id = ([GetById template_id], Inr False))
   \<and> (get_global_master_template_by_id db template_id = Inr (Some t) \<and> \<not> is_default t
      \<longrightarrow> delete_template db template_id
            = ([GetById template_id, Delete template_id],
               delete_global_master_template db template_id))"
  by (simp add: delete_template_def)

theorem delete_template_cases_witness:
  "delete_template example_db 1 = ([GetById 1], Inl (ValueError CannotDeleteDefault))
   \<and> delete_template example_db 7 = ([GetById 7], Inr False)
   \<and> delete_template example_db 2 = ([GetById 2, Delete 2], Inr True)"
proof -
  have a: "get_global_master_template_by_id example_db 1 = Inr (Some (example_template 1 ''Default'' True))
           \<and> is_default (example_template 1 ''Default'' True)"
    by (simp add: example_db_def example_template_def)
  have b: "get_global_master_template_by_id example_db 7 = Inr None"
    by (simp add: example_db_def)
  have c: "get_global_master_template_by_id example_db 2 = Inr (Some (example_template 2 ''Taken'' False))
           \<and> \<not> is_default (example_template 2 ''Taken'' False)"
    by (simp add: example_db_def example_template_def)
  have d: "delete_global_master_template example_db 2 = Inr True"
    by (simp add: example_db_def)
  from delete_template_cases [of example_db 1 "example_template 1 ''Default'' True"] a
       delete_template_cases [of example_db 7] b
       delete_template_cases [of example_db 2 "example_template 2 ''Taken'' False"] c d
  show ?thesis by simp
qed

lemma find_required:
  "find (\<lambda>field. \<not> truthy (dict_get d field)) required_fields =
     (if \<not> truthy (dict_get d ''template_name'') then Some ''template_name''
      else if \<not> truthy (dict_get d ''html_template'') then Some ''html_template'' else None)"
  by (simp add: required_fields_def)

text \<open>
  Claim C8. Creating a template raises a \<open>ValueError\<close> before any call to the
  collaborator when \<open>template_name\<close> or \<open>html_template\<close> is missing or empty, and raises
  one after the lookup alone when the lookup by name returns a record. The create call is
  issued exactly when the configuration resolves, both fields are present and non-empty and
  the lookup returns no record.
\<close>

theorem create_template_guards:
  "(\<not> truthy (dict_get d ''template_name'')
      \<longrightarrow> create_template (Inr ()) db h d
            = ([], Inl (ValueError (MissingRequiredField ''template_name''))))
   \<and> (truthy (dict_get d ''template_name'') \<and> \<not> truthy (dict_get d ''html_template'')
      \<longrightarrow> create_template (Inr ()) db h d
            = ([], Inl (ValueError (MissingRequiredField ''html_template''))))
   \<and> (truthy (dict_get d ''template_name'') \<and> truthy (dict_get d ''html_template'')
        \<and> get_global_master_template_by_name db (dict_get d ''template_name'') = Inr (Some existing)
      \<longrightarrow> create_template (Inr ()) db h d
            = ([GetByName (dict_get d ''template_name'')],
               Inl (ValueError (TemplateNameExists (dict_get d ''template_name'')))))
   \<and> ((\<exists>data. Create data \<in> set (fst (create_template settings db h d)))
        \<longleftrightarrow> (\<exists>u. settings = Inr u)
            \<and> truthy (dict_get d ''template_name'') \<and> truthy (dict_get d ''html_template'')
            \<and> get_global_master_template_by_name db (dict_get d ''template_name'') = Inr None)"
proof (intro conjI impI)
  assume "\<not> truthy (dict_get d ''template_name'')"
  then show "create_template (Inr ()) db h d
            = ([], Inl (ValueError (MissingRequiredField ''template_name'')))"
    by (simp add: create_template_def find_required)
next
  assume "truthy (dict_get d ''template_name'') \<and> \<not> truthy (dict_get d ''html_template'')"
  then show "create_template (Inr ()) db h d
            = ([], Inl (ValueError (MissingRequiredField ''html_template'')))"
    by (simp add: create_template_def find_required)
next
  assume "truthy (dict_get d ''template_name'') \<and> truthy (dict_get d ''html_template'')
        \<and> get_global_master_template_by_name db (dict_get d ''template_name'') = Inr (Some existing)"
  then show "create_template (Inr ()) db h d
            = ([GetByName (dict_get d ''template_name'')],
               Inl (ValueError (TemplateNameExists (dict_get d ''template_name''))))"
    by (simp add: create_template_def find_required Let_def)
next
  show "(\<exists>data. Create data \<in> set (fst (create_template settings db h d)))
        \<longleftrightarrow> (\<exists>u. settings = Inr u)
            \<and> truthy (dict_get d ''template_name'') \<and> truthy (dict_get d ''html_template'')
            \<and> get_global_master_template_by_name db (dict_get d ''template_name'') = Inr None"
    by (auto simp: create_template_def find_required Let_def split: sum.splits option.splits)
qed

theorem create_template_guards_witness:
  "create_template (Inr ()) example_db example_helpers [(''template_name'', PStr ''New'')]
     = ([], Inl (ValueError (MissingRequiredField ''html_template'')))
   \<and> create_template (Inr ()) example_db example_helpers
        [(''template_name'', PStr ''Taken''), (''html_template'', PStr example_document)]
     = ([GetByName (PStr ''Taken'')], Inl (ValueError (TemplateNameExists (PStr ''Taken''))))
   \<and> (\<exists>data. Create data \<in> set (fst (create_template (Inr ()) example_db example_helpers
                                         new_template_data)))"
proof -
  let ?d1 = "[(''template_name'', PStr ''New'')]"
  let ?d2 = "[(''template_name'', PStr ''Taken''), (''html_template'', PStr example_document)]"
  have a: "truthy (dict_get ?d1 ''template_name'') \<and> \<not> truthy (dict_get ?d1 ''html_template'')"
    by (simp add: dict_get_def)
  have b: "truthy (dict_get ?d2 ''template_name'') \<and> truthy (dict_get ?d2 ''html_template'')
        \<and> get_global_master_template_by_name example_db (dict_get ?d2 ''template_name'')
            = Inr (Some (example_template 2 ''Taken'' False))"
    by (simp add: dict_get_def example_db_def example_document_def)
  have c: "(\<exists>u. (Inr () :: exn + unit) = Inr u)
        \<and> truthy (dict_get new_template_data ''template_name'')
        \<and> truthy (dict_get new_template_data ''html_template'')
        \<and> get_global_master_template_by_name example_db (dict_get new_template_data ''template_name'')
            = Inr None"
    by (simp add: dict_get_def example_db_def example_document_def new_template_data_def)
  note g1 = create_template_guards [where d = "?d1" and db = example_db and h = example_helpers,
              THEN conjunct2, THEN conjunct1, rule_format, OF a]
  note g2 = create_template_guards [where d = "?d2" and db = example_db and h = example_helpers
              and existing = "example_template 2 ''Taken'' False",
              THEN conjunct2, THEN conjunct2, THEN conjunct1, rule_format, OF b]
  note g3 = create_template_guards [where d = new_template_data and db = example_db
              and h = example_helpers and settings = "Inr ()", THEN conjunct2, THEN conjunct2, THEN conjunct2]
  have "create_template (Inr ()) example_db example_helpers ?d1
          = ([], Inl (ValueError (MissingRequiredField ''html_template'')))"
    using g1 .
  moreover have "create_template (Inr ()) example_db example_helpers ?d2
     = ([GetByName (PStr ''Taken'')], Inl (ValueError (TemplateNameExists (PStr ''Taken''))))"
    using g2 by (simp add: dict_get_def)
  moreover have "\<exists>data. Create data \<in> set (fst (create_template (Inr ()) example_db example_helpers
                                         new_template_data))"
    using g3 c by blast
  ultimately show ?thesis by blast
qed

text \<open>
  Claim C10. With \<open>template_name\<close> among the updated fields and a lookup by name that
  returns, the update raises the duplicate-name \<open>ValueError\<close> after the lookup alone exactly
  when the lookup returns a record whose id differs from the id being updated. When the
  record found is the one being updated, the update call is issued and its outcome is the
  outcome of the operation.
\<close>

theorem update_template_name_conflict:
  assumes "has_key d ''template_name''"
    and "get_global_master_template_by_name db (dict_get d ''template_name'') = Inr existing"
  shows "(update_template db h template_id d
            = ([GetByName (dict_get d ''template_name'')],
               Inl (ValueError (TemplateNameExists (dict_get d ''template_name''))))
          \<longleftrightarrow> (\<exists>t. existing = Some t \<and> id' t \<noteq> template_id))
       \<and> ((\<exists>t. existing = Some t \<and> id' t = template_id)
          \<longrightarrow> update_template db h template_id d
               = ([GetByName (dict_get d ''template_name''), Update template_id (update_derived h d)],
                  update_global_master_template db template_id (update_derived h d)))"
  using assms by (auto simp: update_template_def Let_def split: option.splits)

theorem update_template_name_conflict_witness:
  "update_template example_db example_helpers 1 [(''template_name'', PStr ''Taken'')]
     = ([GetByName (PStr ''Taken'')], Inl (ValueError (TemplateNameExists (PStr ''Taken''))))
   \<and> update_template example_db example_helpers 2 [(''template_name'', PStr ''Taken'')]
     = ([GetByName (PStr ''Taken''), Update 2 [(''template_name'', PStr ''Taken'')]], Inr True)"
proof -
  let ?d = "[(''template_name'', PStr ''Taken'')]"
  have k: "has_key ?d ''template_name''" by (simp add: has_key_def)
  have l: "get_global_master_template_by_name example_db (dict_get ?d ''template_name'')
             = Inr (Some (example_template 2 ''Taken'' False))"
    by (simp add: dict_get_def example_db_def)
  have i: "id' (example_template 2 ''Taken'' False) = 2"
    by (simp add: example_template_def)
  have u: "update_derived example_helpers ?d = ?d"
    by (simp add: update_derived_def has_key_def)
  have r: "update_global_master_template example_db 2 ?d = Inr True"
    by (simp add: example_db_def)
  from update_template_name_conflict [OF k l, where h = example_helpers and template_id = 1]
       update_template_name_conflict [OF k l, where h = example_helpers and template_id = 2] i u r
  show ?thesis by (simp add: dict_get_def)
qed

section \<open>Validation\<close>

text \<open>
  Claim C4. A \<open>str\<close> candidate is valid exactly when it is non-empty and not all
  whitespace and its lower-cased, trimmed text starts with \<open><!doctype html\<close> and contains
  \<open></html>\<close>, \<open><head\<close>, \<open><body\<close> and \<open><title\<close>. An exception raised by the checks makes the
  result \<open>False\<close>.
\<close>

theorem validate_html_template_iff:
  "(validate_html_template (PStr s) \<longleftrightarrow>
      s \<noteq> [] \<and> strip s \<noteq> []
      \<and> startswith (strip (lower s)) ''<!doctype html''
      \<and> contains (strip (lower s)) ''</html>''
      \<and> contains (strip (lower s)) ''<head''
      \<and> contains (strip (lower s)) ''<body''
      \<and> contains (strip (lower s)) ''<title'')
   \<and> (validate_checks v = Inl e \<longrightarrow> \<not> validate_html_template v)"
  by (simp add: validate_html_template_def validate_checks_def Let_def)

text \<open>
  The example document is valid; the empty string and a document without a title are not;
  a candidate that is not a \<open>str\<close> raises inside the checks and is not valid.
\<close>

theorem validate_html_template_iff_witness:
  "validate_html_template (PStr example_document)
   \<and> \<not> validate_html_template (PStr [])
   \<and> \<not> validate_html_template (PStr untitled_document)
   \<and> validate_checks (PInt 5) = Inl AttributeError
   \<and> \<not> validate_html_template (PInt 5)"
proof -
  have a: "example_document \<noteq> [] \<and> strip example_document \<noteq> []
      \<and> startswith (strip (lower example_document)) ''<!doctype html''
      \<and> contains (strip (lower example_document)) ''</html>''
      \<and> contains (strip (lower example_document)) ''<head''
      \<and> contains (strip (lower example_document)) ''<body''
      \<and> contains (strip (lower example_document)) ''<title''"
    by code_simp
  have b: "\<not> contains (strip (lower untitled_document)) ''<title''"
    by code_simp
  have c: "validate_checks (PInt 5) = Inl AttributeError"
    by (simp add: validate_checks_def)
  from validate_html_template_iff [of example_document, THEN conjunct1]
       validate_html_template_iff [of "[]", THEN conjunct1]
       validate_html_template_iff [of untitled_document, THEN conjunct1]
       validate_html_template_iff [of _ "PInt 5" AttributeError, THEN conjunct2] a b c
  show ?thesis by blast
qed

section \<open>Prompt building\<close>

text \<open>
  Claim C5, as stated, fails: an unknown mode string with a reference image does not fall
  back to the text-only message. The builder takes the \<open>else\<close> branch of the mode test and
  produces the message with the one-to-one instruction and the image.
\<close>

theorem generation_messages_unknown_mode_counterexample:
  "generation_messages ''p'' ''bogus'' (Some reference_png)
     = Inr [PartsContent [TextPart (ReferencePrompt OneToOneInstruction ''p''),
                          ImageUrlPart ''data:image/png;base64,AAAA'']]
   \<and> generation_messages ''p'' ''text_only'' (Some reference_png)
     = Inr [StrContent (TextOnlyPrompt ''p'')]
   \<and> generation_messages ''p'' ''bogus'' (Some reference_png)
     \<noteq> generation_messages ''p'' ''text_only'' (Some reference_png)"
  by (simp add: generation_messages_def no_reference_image_def image_entries_def
        reference_png_def startswith_def)

text \<open>
  Claim C5, amended. Without a reference image (\<open>None\<close> or an empty dictionary) every
  mode string, known or not, gives the text-only message of \<open>text_only\<close>, and no error is
  raised. A mode string other than \<open>text_only\<close> and \<open>reference_style\<close> is not rejected and
  builds what \<open>one_to_one\<close> builds: with a reference image whose data is a data URL, the
  message with the one-to-one instruction and that image.
\<close>

theorem generation_messages_fallback:
  "(no_reference_image reference_image
      \<longrightarrow> generation_messages prompt generation_mode reference_image
            = Inr [StrContent (TextOnlyPrompt prompt)])
   \<and> generation_messages prompt ''text_only'' reference_image
        = Inr [StrContent (TextOnlyPrompt prompt)]
   \<and> (generation_mode \<noteq> ''text_only'' \<and> generation_mode \<noteq> ''reference_style''
      \<longrightarrow> generation_messages prompt generation_mode reference_image
            = generation_messages prompt ''one_to_one'' reference_image)
   \<and> (generation_mode \<noteq> ''text_only'' \<and> generation_mode \<noteq> ''reference_style''
        \<and> reference_image = Some d \<and> map_of d ''data'' = Some image_data
        \<and> startswith image_data ''data:''
      \<longrightarrow> generation_messages prompt generation_mode reference_image
            = Inr [PartsContent [TextPart (ReferencePrompt OneToOneInstruction prompt),
                                 ImageUrlPart image_data]])"
  by (auto simp: generation_messages_def Let_def no_reference_image_def image_entries_def
           split: option.splits)

theorem generation_messages_fallback_witness:
  "generation_messages ''p'' ''reference_style'' None = Inr [StrContent (TextOnlyPrompt ''p'')]
   \<and> generation_messages ''p'' ''exact_replica'' (Some []) = Inr [StrContent (TextOnlyPrompt ''p'')]
   \<and> generation_messages ''p'' ''bogus'' None = generation_messages ''p'' ''text_only'' None
   \<and> generation_messages ''p'' ''bogus'' (Some reference_png)
       = Inr [PartsContent [TextPart (ReferencePrompt OneToOneInstruction ''p''),
                            ImageUrlPart ''data:image/png;base64,AAAA'']]"
proof -
  have n: "no_reference_image None" "no_reference_image (Some [])"
    by (simp_all add: no_reference_image_def)
  have m: "''bogus'' \<noteq> ''text_only'' \<and> ''bogus'' \<noteq> ''reference_style''
           \<and> Some reference_png = Some reference_png
           \<and> map_of reference_png ''data'' = Some ''data:image/png;base64,AAAA''
           \<and> startswith ''data:image/png;base64,AAAA'' ''data:''"
    by (simp add: reference_png_def startswith_def)
  note f = generation_messages_fallback
  from f [where reference_image = None and prompt = "''p''" and generation_mode = "''reference_style''",
          THEN conjunct1, rule_format, OF n(1)]
       f [where reference_image = "Some []" and prompt = "''p''" and generation_mode = "''exact_replica''",
          THEN conjunct1, rule_format, OF n(2)]
       f [where reference_image = None and prompt = "''p''" and generation_mode = "''bogus''",
          THEN conjunct1, rule_format, OF n(1)]
       f [where reference_image = None and prompt = "''p''", THEN conjunct2, THEN conjunct1]
       f [where reference_image = "Some reference_png" and prompt = "''p''"
            and generation_mode = "''bogus''" and d = reference_png
            and image_data = "''data:image/png;base64,AAAA''",
          THEN conjunct2, THEN conjunct2, THEN conjunct2, rule_format, OF m]
  show ?thesis by simp
qed

section \<open>Streaming\<close>

text \<open>
  Claim C1 requires every stream to end with one \<open>complete\<close> or \<open>error\<close> event. With a
  reference image attached and a mode other than \<open>text_only\<close>, a provider without
  streaming chat that returns a valid document makes the generator yield two progress
  events and end: extraction, validation and the \<open>complete\<close> event belong to the text-only
  branch alone.
\<close>

theorem generate_stream_reference_image_no_terminal:
  "generate_template_with_ai_stream (Inr (Some blocking_provider)) ''p'' ''n'' [] None
       ''reference_style'' (Some reference_png)
     = ([Thinking (Status AnalyzingImage), Thinking (Text example_document)], None)
   \<and> validate_html_template (PStr (extract_html_from_response example_document))
   \<and> \<not> one_terminal_at_end
         (fst (generate_template_with_ai_stream (Inr (Some blocking_provider)) ''p'' ''n'' [] None
                 ''reference_style'' (Some reference_png)))"
proof -
  have a: "generate_template_with_ai_stream (Inr (Some blocking_provider)) ''p'' ''n'' [] None
       ''reference_style'' (Some reference_png)
     = ([Thinking (Status AnalyzingImage), Thinking (Text example_document)], None)"
    by (simp add: generate_template_with_ai_stream_def generate_stream_body_def catch_all_def
          reference_image_branch_def stream_prompt_def no_reference_image_def reference_png_def image_url_of_def
          image_entries_def startswith_def blocking_provider_def content_of_def)
  have b: "validate_html_template (PStr (extract_html_from_response example_document))"
    by code_simp
  show ?thesis unfolding a using b by (simp add: one_terminal_at_end_def is_terminal_def)
qed

lemma forward_chunks_thinking:
  "filter is_terminal (fst (forward_chunks stream)) = []"
  by (simp add: forward_chunks_def is_terminal_def filter_empty_conv)

lemma finish_generation_raises:
  "finish_generation prompt name desc tgs full_response = (evs, Inl e)
     \<Longrightarrow> filter is_terminal evs = []"
  by (auto simp: finish_generation_def is_terminal_def split: sum.splits if_splits)

lemma finish_adjustment_raises:
  "finish_adjustment name response_content = (evs, Inl e) \<Longrightarrow> evs = []"
  by (auto simp: finish_adjustment_def split: sum.splits if_splits)

lemma reference_image_branch_thinking:
  "filter is_terminal (fst (reference_image_branch prov ai_prompt reference_image)) = []"
proof -
  have "\<And>stream evs r. forward_chunks stream = (evs, r) \<Longrightarrow> filter is_terminal evs = []"
    using forward_chunks_thinking by (metis fst_conv)
  then show ?thesis
    by (auto simp: reference_image_branch_def Let_def is_terminal_def
             split: sum.splits option.splits prod.splits)
qed

lemma text_response_thinking:
  "filter is_terminal (fst (text_response prov ai_prompt)) = []"
  by (auto simp: text_response_def is_terminal_def forward_chunks_thinking
           split: sum.splits option.splits)

lemma adjust_response_thinking:
  "filter is_terminal (fst (adjust_response prov ai_prompt adjustment_request)) = []"
proof -
  have "\<And>stream evs r. forward_chunks stream = (evs, r) \<Longrightarrow> filter is_terminal evs = []"
    using forward_chunks_thinking by (metis fst_conv)
  then show ?thesis
    by (auto simp: adjust_response_def is_terminal_def simulated_progress_def
             split: sum.splits option.splits prod.splits)
qed

lemma generate_stream_body_raises:
  assumes "snd (generate_stream_body role prompt name desc tgs generation_mode reference_image) = Inl e"
  shows "filter is_terminal
           (fst (generate_stream_body role prompt name desc tgs generation_mode reference_image)) = []"
proof (cases role)
  case (Inl e')
  then show ?thesis by (simp add: generate_stream_body_def)
next
  case (Inr prov)
  let ?p = "stream_prompt prompt generation_mode reference_image"
  show ?thesis
  proof (cases "generation_mode \<noteq> ''text_only'' \<and> \<not> no_reference_image reference_image")
    case True
    then show ?thesis
      using Inr reference_image_branch_thinking [of prov ?p reference_image]
      by (simp add: generate_stream_body_def Let_def)
  next
    case False
    obtain evs r where t: "text_response prov ?p = (evs, r)" by (cases "text_response prov ?p")
    have evs: "filter is_terminal evs = []"
      using text_response_thinking [of prov ?p] t by simp
    show ?thesis
    proof (cases r)
      case (Inl e')
      then show ?thesis using Inr False t evs by (auto simp: generate_stream_body_def Let_def)
    next
      case r: (Inr full_response)
      obtain evs' r' where f: "finish_generation prompt name desc tgs full_response = (evs', r')"
        by (cases "finish_generation prompt name desc tgs full_response")
      have "r' = Inl e" using assms Inr False t r f by (auto simp: generate_stream_body_def Let_def)
      then have "filter is_terminal evs' = []" using f finish_generation_raises by blast
      then show ?thesis using Inr False t r f evs by (auto simp: generate_stream_body_def Let_def)
    qed
  qed
qed

lemma adjust_stream_body_raises:
  assumes "snd (adjust_stream_body role current_html adjustment_request name) = Inl e"
  shows "filter is_terminal (fst (adjust_stream_body role current_html adjustment_request name)) = []"
proof (cases role)
  case (Inl e')
  then show ?thesis by (simp add: adjust_stream_body_def)
next
  case (Inr prov)
  let ?p = "AdjustPrompt current_html adjustment_request"
  obtain evs r where t: "adjust_response prov ?p adjustment_request = (evs, r)"
    by (cases "adjust_response prov ?p adjustment_request")
  have evs: "filter is_terminal evs = []"
    using adjust_response_thinking [of prov ?p adjustment_request] t by simp
  show ?thesis
  proof (cases r)
    case (Inl e')
    then show ?thesis using Inr t evs by (simp add: adjust_stream_body_def Let_def)
  next
    case r0: (Inr fr)
    obtain finishing response_content where r: "r = Inr (finishing, response_content)"
      unfolding r0 by (cases fr) simp
    obtain evs' r' where f: "finish_adjustment name response_content = (evs', r')"
      by (cases "finish_adjustment name response_content")
    have "r' = Inl e" using assms Inr t r f by (simp add: adjust_stream_body_def Let_def)
    then have "evs' = []" using f finish_adjustment_raises by blast
    then show ?thesis using Inr t r f evs by (simp add: adjust_stream_body_def Let_def is_terminal_def)
  qed
qed

lemma catch_all_raised:
  assumes "snd g = Inl e" and "filter is_terminal (fst g) = []"
  shows "catch_all g = (fst g @ [Error e], None)"
    and "one_terminal_at_end (fst (catch_all g))"
    and "last (fst (catch_all g)) = Error e"
  using assms by (simp_all add: catch_all_def one_terminal_at_end_def is_terminal_def)

text \<open>
  Claim C6. No exception leaves the two streaming operations. When the body of the
  \<open>try\<close> raises, at any point, the events yielded so far are followed by one \<open>error\<close>
  event that carries the exception, and this is the only terminal event of the stream.
\<close>

theorem streams_never_raise:
  "snd (generate_template_with_ai_stream role prompt name desc tgs generation_mode reference_image)
     = None
   \<and> snd (adjust_template_with_ai_stream role current_html adjustment_request name) = None
   \<and> (snd (generate_stream_body role prompt name desc tgs generation_mode reference_image) = Inl e
      \<longrightarrow> fst (generate_template_with_ai_stream role prompt name desc tgs generation_mode
                  reference_image)
            = fst (generate_stream_body role prompt name desc tgs generation_mode reference_image)
                @ [Error e]
          \<and> one_terminal_at_end
              (fst (generate_template_with_ai_stream role prompt name desc tgs generation_mode
                      reference_image)))
   \<and> (snd (adjust_stream_body role current_html adjustment_request name) = Inl e'
      \<longrightarrow> fst (adjust_template_with_ai_stream role current_html adjustment_request name)
            = fst (adjust_stream_body role current_html adjustment_request name) @ [Error e']
          \<and> one_terminal_at_end
              (fst (adjust_template_with_ai_stream role current_html adjustment_request name)))"
proof (intro conjI impI)
  show "snd (generate_template_with_ai_stream role prompt name desc tgs generation_mode reference_image)
     = None"
    by (simp add: generate_template_with_ai_stream_def catch_all_def split: sum.splits)
  show "snd (adjust_template_with_ai_stream role current_html adjustment_request name) = None"
    by (simp add: adjust_template_with_ai_stream_def catch_all_def split: sum.splits)
next
  assume r: "snd (generate_stream_body role prompt name desc tgs generation_mode reference_image) = Inl e"
  note c = catch_all_raised [OF r generate_stream_body_raises [OF r]]
  show "fst (generate_template_with_ai_stream role prompt name desc tgs generation_mode
                  reference_image)
            = fst (generate_stream_body role prompt name desc tgs generation_mode reference_image)
                @ [Error e]"
    using c(1) by (simp add: generate_template_with_ai_stream_def)
  show "one_terminal_at_end
              (fst (generate_template_with_ai_stream role prompt name desc tgs generation_mode
                      reference_image))"
    using c(2) by (simp add: generate_template_with_ai_stream_def)
next
  assume r: "snd (adjust_stream_body role current_html adjustment_request name) = Inl e'"
  note c = catch_all_raised [OF r adjust_stream_body_raises [OF r]]
  show "fst (adjust_template_with_ai_stream role current_html adjustment_request name)
            = fst (adjust_stream_body role current_html adjustment_request name) @ [Error e']"
    using c(1) by (simp add: adjust_template_with_ai_stream_def)
  show "one_terminal_at_end
              (fst (adjust_template_with_ai_stream role current_html adjustment_request name))"
    using c(2) by (simp add: adjust_template_with_ai_stream_def)
qed

text \<open>
  A provider whose stream raises after one chunk, and a role resolution that raises.
\<close>

theorem streams_never_raise_witness:
  "generate_template_with_ai_stream (Inr (Some failing_provider)) ''p'' ''n'' [] None ''text_only'' None
     = ([Thinking (Text ''<!DOC''), Error (CollaboratorError ''unavailable'')], None)
   \<and> one_terminal_at_end
        (fst (generate_template_with_ai_stream (Inr (Some failing_provider)) ''p'' ''n'' [] None
                ''text_only'' None))
   \<and> adjust_template_with_ai_stream (Inr (Some failing_provider)) ''<p>'' ''wider'' ''n''
     = ([Thinking (Text ''<!DOC''), Error (CollaboratorError ''unavailable'')], None)
   \<and> adjust_template_with_ai_stream (Inl (CollaboratorError ''no provider'')) ''<p>'' ''wider'' ''n''
     = ([Error (CollaboratorError ''no provider'')], None)"
proof -
  let ?e = "CollaboratorError ''unavailable''"
  let ?e' = "CollaboratorError ''no provider''"
  have g: "generate_stream_body (Inr (Some failing_provider)) ''p'' ''n'' [] None ''text_only'' None
             = ([Thinking (Text ''<!DOC'')], Inl ?e)"
    by (simp add: generate_stream_body_def text_response_def forward_chunks_def
          failing_provider_def stream_prompt_def)
  have a: "adjust_stream_body (Inl ?e') ''<p>'' ''wider'' ''n'' = ([], Inl ?e')"
    by (simp add: adjust_stream_body_def)
  have b: "adjust_stream_body (Inr (Some failing_provider)) ''<p>'' ''wider'' ''n''
             = ([Thinking (Text ''<!DOC'')], Inl ?e)"
    by (simp add: adjust_stream_body_def adjust_response_def forward_chunks_def
          failing_provider_def)
  note t = streams_never_raise [where role = "Inr (Some failing_provider)" and prompt = "''p''"
      and name = "''n''" and desc = "[]" and tgs = None and generation_mode = "''text_only''"
      and reference_image = None and e = ?e and current_html = "''<p>''"
      and adjustment_request = "''wider''" and e' = ?e]
  note t' = streams_never_raise [where role = "Inl ?e'" and current_html = "''<p>''"
      and adjustment_request = "''wider''" and name = "''n''" and e' = ?e']
  have gs: "snd (generate_stream_body (Inr (Some failing_provider)) ''p'' ''n'' [] None
                   ''text_only'' None) = Inl ?e"
    using g by simp
  have as: "snd (adjust_stream_body (Inl ?e') ''<p>'' ''wider'' ''n'') = Inl ?e'"
    using a by simp
  have bs: "snd (adjust_stream_body (Inr (Some failing_provider)) ''<p>'' ''wider'' ''n'') = Inl ?e"
    using b by simp
  note c = t [THEN conjunct2, THEN conjunct2, THEN conjunct1, rule_format, OF gs]
  note c' = t' [THEN conjunct2, THEN conjunct2, THEN conjunct2, rule_format, OF as]
  note c'' = t [THEN conjunct2, THEN conjunct2, THEN conjunct2, rule_format, OF bs]
  have 1: "generate_template_with_ai_stream (Inr (Some failing_provider)) ''p'' ''n'' [] None
             ''text_only'' None = ([Thinking (Text ''<!DOC''), Error ?e], None)"
    using c [THEN conjunct1] t [THEN conjunct1] g by (simp add: prod_eq_iff)
  have 2: "one_terminal_at_end
        (fst (generate_template_with_ai_stream (Inr (Some failing_provider)) ''p'' ''n'' [] None
                ''text_only'' None))"
    by (rule c [THEN conjunct2])
  have 3: "adjust_template_with_ai_stream (Inl ?e') ''<p>'' ''wider'' ''n'' = ([Error ?e'], None)"
    using c' [THEN conjunct1] t' [THEN conjunct2, THEN conjunct1] a by (simp add: prod_eq_iff)
  have 4: "adjust_template_with_ai_stream (Inr (Some failing_provider)) ''<p>'' ''wider'' ''n''
             = ([Thinking (Text ''<!DOC''), Error ?e], None)"
    using c'' [THEN conjunct1] t [THEN conjunct2, THEN conjunct1] b by (simp add: prod_eq_iff)
  show ?thesis using 1 2 3 4 by blast
qed

text \<open>
  The text-only branch always ends with its one terminal event; the branch with a
  reference image yields no terminal event unless it raises.
\<close>

lemma generate_stream_text_path_terminal:
  assumes "generation_mode = ''text_only'' \<or> no_reference_image reference_image"
  shows "one_terminal_at_end
           (fst (generate_template_with_ai_stream role prompt name desc tgs generation_mode
                   reference_image))"
proof -
  let ?b = "generate_stream_body role prompt name desc tgs generation_mode reference_image"
  let ?p = "stream_prompt prompt generation_mode reference_image"
  show ?thesis
  proof (cases "snd ?b")
    case (Inl e)
    then show ?thesis
      using catch_all_raised(2) [OF Inl generate_stream_body_raises [OF Inl]]
      by (simp add: generate_template_with_ai_stream_def)
  next
    case (Inr u)
    then obtain prov where role: "role = Inr prov"
      by (cases role) (auto simp: generate_stream_body_def)
    obtain evs r where t: "text_response prov ?p = (evs, r)" by (cases "text_response prov ?p")
    have evs: "filter is_terminal evs = []"
      using text_response_thinking [of prov ?p] t by simp
    from Inr role t assms obtain full_response where r: "r = Inr full_response"
      by (cases r) (auto simp: generate_stream_body_def Let_def)
    have "\<exists>g. finish_generation prompt name desc tgs full_response
              = ([Thinking (Status Optimizing), Thinking (Status Finished), Complete g], Inr ())"
      using Inr role t r assms
      by (auto simp: generate_stream_body_def finish_generation_def Let_def
               split: sum.splits if_splits)
    then obtain g where "?b = (evs @ [Thinking (Status Optimizing), Thinking (Status Finished),
                                      Complete g], Inr ())"
      using role t r assms by (auto simp: generate_stream_body_def Let_def)
    then show ?thesis using evs
      by (simp add: generate_template_with_ai_stream_def catch_all_def one_terminal_at_end_def
            is_terminal_def butlast_append)
  qed
qed

lemma generate_stream_reference_path_unterminated:
  assumes "generation_mode \<noteq> ''text_only''" and "\<not> no_reference_image reference_image"
    and "snd (generate_stream_body role prompt name desc tgs generation_mode reference_image) = Inr u"
  shows "filter is_terminal
           (fst (generate_template_with_ai_stream role prompt name desc tgs generation_mode
                   reference_image)) = []"
proof -
  obtain prov where role: "role = Inr prov"
    using assms(3) by (cases role) (auto simp: generate_stream_body_def)
  show ?thesis
    using assms role
      reference_image_branch_thinking
        [of prov "stream_prompt prompt generation_mode reference_image" reference_image]
    by (simp add: generate_template_with_ai_stream_def catch_all_def generate_stream_body_def
          Let_def)
qed

section \<open>The retry loop of blocking generation\<close>

lemma strip_Nil [simp]: "strip [] = []"
  by (simp add: strip_def lstrip_def rstrip_def)

lemma attempt_body_success:
  assumes "attempt_succeeds attempt (Inr (Some s))"
  shows "attempt_body attempt (Inr (Some s)) st
           = ((Some s, Some (extract_html_from_response s)), Inr Break)"
proof -
  from assms have a: "strip s \<noteq> []" "2000 \<le> length s \<or> attempt = max_retries - 1"
      "strip (extract_html_from_response s) \<noteq> []"
      "validate_html_template (PStr (extract_html_from_response s))"
    by (simp_all add: attempt_succeeds_def)
  from a(1) have "s \<noteq> []" by auto
  moreover from a(3) have "extract_html_from_response s \<noteq> []" by auto
  ultimately show ?thesis using a
    by (auto simp: attempt_body_def Let_def)
qed

lemma attempt_body_retry:
  assumes "\<not> attempt_succeeds attempt ai_response" and "attempt < max_retries - 1"
  shows "snd (attempt_body attempt ai_response st) \<noteq> Inr Break"
  using assms
  by (auto simp: attempt_body_def attempt_succeeds_def Let_def split: sum.splits option.splits)

lemma attempt_body_blank:
  assumes "blank_response ai_response"
  shows "snd (attempt_body attempt ai_response st)
           = (if attempt < max_retries - 1 then Inr Continue else Inl (ValueError EmptyResponse))"
  using assms
  by (auto simp: attempt_body_def blank_response_def split: sum.splits option.splits)

lemma attempts_loop_calls:
  "fst (attempts_loop chat attempts calls st) \<le> calls + length attempts"
proof (induction attempts arbitrary: calls st)
  case Nil
  then show ?case by simp
next
  case (Cons attempt rest)
  obtain st' r where b: "attempt_body attempt (chat calls) st = (st', r)"
    by (cases "attempt_body attempt (chat calls) st")
  have ih: "fst (attempts_loop chat rest (Suc calls) st') \<le> Suc calls + length rest"
    by (rule Cons.IH)
  show ?case
  proof (cases r)
    case (Inl e)
    then show ?thesis using b ih by simp
  next
    case (Inr c)
    then show ?thesis using b ih by (cases c) simp_all
  qed
qed

lemma attempts_loop_step:
  assumes "a < max_retries - 1" and "snd (attempt_body a (chat a) st) \<noteq> Inr Break"
  shows "attempts_loop chat [a..<max_retries] a st
           = attempts_loop chat [Suc a..<max_retries] (Suc a) (fst (attempt_body a (chat a) st))"
proof -
  have u: "[a..<max_retries] = a # [Suc a..<max_retries]"
    using assms(1) by (simp add: upt_conv_Cons)
  obtain st' r where b: "attempt_body a (chat a) st = (st', r)"
    by (cases "attempt_body a (chat a) st")
  show ?thesis
  proof (cases r)
    case (Inl e)
    then show ?thesis using b u assms by simp
  next
    case (Inr c)
    then show ?thesis using b u assms by (cases c) simp_all
  qed
qed

lemma attempts_loop_recovers:
  assumes "k < max_retries" and "a \<le> k"
    and "\<forall>j. a \<le> j \<and> j < k \<longrightarrow> \<not> attempt_succeeds j (chat j)"
    and "chat k = Inr (Some s)" and "attempt_succeeds k (chat k)"
  shows "attempts_loop chat [a..<max_retries] a st
           = (Suc k, Inr (Some s, Some (extract_html_from_response s)))"
  using assms(2,3)
proof (induction "k - a" arbitrary: a st)
  case 0
  then have ak: "a = k" by simp
  have u: "[k..<max_retries] = k # [Suc k..<max_retries]"
    using assms(1) by (simp add: upt_conv_Cons)
  show ?case
    using attempt_body_success [of k s st] assms(4,5) by (simp add: ak u)
next
  case (Suc n)
  then have lt: "a < k" by simp
  then have last: "a < max_retries - 1" using assms(1) by simp
  have "\<not> attempt_succeeds a (chat a)" using Suc.prems lt by simp
  then have nb: "snd (attempt_body a (chat a) st) \<noteq> Inr Break"
    using last by (rule attempt_body_retry)
  have "attempts_loop chat [Suc a..<max_retries] (Suc a) (fst (attempt_body a (chat a) st))
          = (Suc k, Inr (Some s, Some (extract_html_from_response s)))"
    using Suc.hyps(2) Suc.prems lt by (intro Suc.hyps(1)) auto
  then show ?case using attempts_loop_step [where a = a and chat = chat and st = st, OF last nb] by simp
qed

lemma attempts_loop_blank:
  assumes "a < max_retries"
    and "\<forall>j. a \<le> j \<and> j < max_retries \<longrightarrow> blank_response (chat j)"
  shows "attempts_loop chat [a..<max_retries] a st = (max_retries, Inl (ValueError EmptyResponse))"
  using assms
proof (induction "max_retries - a" arbitrary: a st)
  case 0
  then show ?case by simp
next
  case (Suc n)
  have bl: "blank_response (chat a)" using Suc.prems by simp
  show ?case
  proof (cases "a < max_retries - 1")
    case True
    have nb: "snd (attempt_body a (chat a) st) \<noteq> Inr Break"
      using attempt_body_blank [OF bl, of a st] True by simp
    have "attempts_loop chat [Suc a..<max_retries] (Suc a) (fst (attempt_body a (chat a) st))
            = (max_retries, Inl (ValueError EmptyResponse))"
      using Suc.hyps(2) Suc.prems True by (intro Suc.hyps(1)) auto
    then show ?thesis using attempts_loop_step [where a = a and chat = chat and st = st, OF True nb] by simp
  next
    case False
    then have a: "Suc a = max_retries" using Suc.prems(1) by simp
    then have u: "[a..<max_retries] = [a]" by (metis upt_rec upt_Suc lessI upt_eq_Nil_conv le_refl upt_conv_Cons)
    obtain st' where b: "attempt_body a (chat a) st = (st', Inl (ValueError EmptyResponse))"
      using attempt_body_blank [OF bl, of a st] False
      by (cases "attempt_body a (chat a) st") simp
    show ?thesis using b u False a by simp
  qed
qed

text \<open>
  Claim C2, as stated, fails: a response that yields a valid candidate does not end the
  loop when it is shorter than 2000 characters and the attempt is not the last one. Here
  the first call returns the example document, which validates, and every later call
  returns nothing: the operation makes all five calls and fails.
\<close>

theorem generate_short_response_counterexample:
  "validate_html_template (PStr (extract_html_from_response example_document))
   \<and> short_first_chat 0 = Inr (Some example_document)
   \<and> generate_template_with_ai (Inr (Some (provider_of_chat short_first_chat))) ''p'' ''n'' [] None
        ''text_only'' None
      = (5, Inl (ValueError EmptyResponse))"
  by code_simp

text \<open>
  Claim C2, amended. The provider is called at most 5 times. When every one of the five
  calls returns empty or blank text, the operation fails with the empty-response error
  after exactly 5 calls. When attempt \<open>k\<close> is the first whose response is text that is not
  blank, is at least 2000 characters long or comes on the fifth attempt, and yields a
  candidate that validates, the result of that attempt is returned after exactly \<open>k\<close>
  calls (\<open>k\<close> counted from 1; \<open>Suc k\<close> for the index \<open>k\<close> counted from 0).
\<close>

theorem generate_retry_policy:
  "fst (generate_template_with_ai role prompt name desc tgs generation_mode reference_image) \<le> 5
   \<and> (role = Inr (Some p)
        \<and> generation_messages prompt generation_mode reference_image = Inr messages
        \<and> (\<forall>n<5. blank_response (chat_completion p (map convert_message messages) n))
      \<longrightarrow> generate_template_with_ai role prompt name desc tgs generation_mode reference_image
            = (5, Inl (ValueError EmptyResponse)))
   \<and> (role = Inr (Some p)
        \<and> generation_messages prompt generation_mode reference_image = Inr messages
        \<and> k < 5
        \<and> chat_completion p (map convert_message messages) k = Inr (Some s)
        \<and> attempt_succeeds k (Inr (Some s))
        \<and> (\<forall>j<k. \<not> attempt_succeeds j (chat_completion p (map convert_message messages) j))
      \<longrightarrow> generate_template_with_ai role prompt name desc tgs generation_mode reference_image
            = (Suc k,
               Inr \<lparr> res_html_template = extract_html_from_response s, res_template_name = name,
                     res_description = description_or_default desc prompt,
                     res_tags = tags_or_default tgs,
                     res_llm_response = Some s \<rparr>))"
proof (intro conjI impI)
  have b: "fst (attempts_loop chat [0..<max_retries] 0 (None, None)) \<le> 5" for chat
    using attempts_loop_calls [of chat "[0..<max_retries]" 0 "(None, None)"]
    by (simp add: max_retries_def)
  show "fst (generate_template_with_ai role prompt name desc tgs generation_mode
               reference_image) \<le> 5"
  proof (cases "generation_messages prompt generation_mode reference_image")
    case (Inl e)
    then show ?thesis by (simp add: generate_template_with_ai_def)
  next
    case m: (Inr messages)
    show ?thesis
    proof (cases role)
      case (Inl e)
      then show ?thesis using m by (simp add: generate_template_with_ai_def)
    next
      case (Inr prov)
      show ?thesis
      proof (cases prov)
        case None
        then show ?thesis using m Inr by (simp add: generate_template_with_ai_def)
      next
        case (Some p)
        let ?chat = "chat_completion p (map convert_message messages)"
        obtain calls r where l: "attempts_loop ?chat [0..<max_retries] 0 (None, None) = (calls, r)"
          by (cases "attempts_loop ?chat [0..<max_retries] 0 (None, None)")
        have "calls \<le> 5" using b [of ?chat] l by simp
        then show ?thesis using m Inr Some l
          by (simp add: generate_template_with_ai_def Let_def
                   split: sum.splits option.splits prod.splits)
      qed
    qed
  qed
next
  assume a: "role = Inr (Some p)
        \<and> generation_messages prompt generation_mode reference_image = Inr messages
        \<and> (\<forall>n<5. blank_response (chat_completion p (map convert_message messages) n))"
  let ?chat = "chat_completion p (map convert_message messages)"
  have "attempts_loop ?chat [0..<max_retries] 0 (None, None)
          = (max_retries, Inl (ValueError EmptyResponse))"
    using a by (intro attempts_loop_blank) (simp_all add: max_retries_def)
  then show "generate_template_with_ai role prompt name desc tgs generation_mode reference_image
            = (5, Inl (ValueError EmptyResponse))"
    using a by (simp add: generate_template_with_ai_def Let_def max_retries_def)
next
  assume a: "role = Inr (Some p)
        \<and> generation_messages prompt generation_mode reference_image = Inr messages
        \<and> k < 5
        \<and> chat_completion p (map convert_message messages) k = Inr (Some s)
        \<and> attempt_succeeds k (Inr (Some s))
        \<and> (\<forall>j<k. \<not> attempt_succeeds j (chat_completion p (map convert_message messages) j))"
  let ?chat = "chat_completion p (map convert_message messages)"
  have l: "attempts_loop ?chat [0..<max_retries] 0 (None, None)
          = (Suc k, Inr (Some s, Some (extract_html_from_response s)))"
    using a by (intro attempts_loop_recovers) (simp_all add: max_retries_def)
  have "strip (extract_html_from_response s) \<noteq> []"
    using a by (simp add: attempt_succeeds_def)
  then have "extract_html_from_response s \<noteq> []" by auto
  then show "generate_template_with_ai role prompt name desc tgs generation_mode reference_image
            = (Suc k,
               Inr \<lparr> res_html_template = extract_html_from_response s, res_template_name = name,
                     res_description = description_or_default desc prompt,
                     res_tags = tags_or_default tgs,
                     res_llm_response = Some s \<rparr>)"
    using a l by (simp add: generate_template_with_ai_def Let_def)
qed

text \<open>
  Leading spaces change neither what the searches find nor the trimmed text, so a long
  response can be judged by its short core.
\<close>

lemma lstrip_replicate: "isspace c \<Longrightarrow> lstrip (replicate n c @ s) = lstrip s"
  by (induction n) (simp_all add: lstrip_def)

lemma strip_replicate: "isspace c \<Longrightarrow> strip (replicate n c @ s) = strip s"
  by (simp add: strip_def lstrip_replicate)

lemma re_search_skip:
  assumes "\<And>s. re_match False p (c # s) = None"
  shows "re_search p (replicate n c @ s) = re_search p s"
  by (induction n) (simp_all add: assms)

lemma html_block_pattern_head:
  "re_match False html_block_pattern (CHR '' '' # s) = None"
proof -
  have "CHR '' '' \<noteq> char_of (96::nat)" by code_simp
  then show ?thesis
    by (simp add: html_block_pattern_def lits_def fence_def numeral_3_eq_3)
qed

lemma code_block_pattern_head:
  "re_match False code_block_pattern (CHR '' '' # s) = None"
proof -
  have "lower_char CHR '' '' \<noteq> lower_char (char_of (96::nat))" by code_simp
  then show ?thesis
    by (simp add: code_block_pattern_def ilits_def fence_def numeral_3_eq_3)
qed

lemma doctype_pattern_head:
  "re_match False doctype_pattern (CHR '' '' # s) = None"
proof -
  have "lower_char CHR '' '' \<noteq> lower_char CHR ''<''" by code_simp
  then show ?thesis
    by (simp add: doctype_pattern_def ilits_def)
qed

lemma isspace_space: "isspace CHR '' ''"
  by code_simp

lemma extract_padding:
  "extract_html_from_response (padding @ s) = extract_html_from_response s"
proof -
  have 1: "re_search html_block_pattern (padding @ s) = re_search html_block_pattern s"
    unfolding padding_def by (rule re_search_skip) (rule html_block_pattern_head)
  have 2: "re_search code_block_pattern (padding @ s) = re_search code_block_pattern s"
    unfolding padding_def by (rule re_search_skip) (rule code_block_pattern_head)
  have 3: "re_search doctype_pattern (padding @ s) = re_search doctype_pattern s"
    unfolding padding_def by (rule re_search_skip) (rule doctype_pattern_head)
  have 4: "strip (padding @ s) = strip s"
    unfolding padding_def by (rule strip_replicate) (rule isspace_space)
  show ?thesis
    by (simp only: extract_html_from_response_def 1 2 3 4)
qed

lemma strip_padding: "strip (padding @ s) = strip s"
  unfolding padding_def by (rule strip_replicate) (rule isspace_space)

lemma length_padding: "length padding = 2000"
  by (simp add: padding_def)

lemma long_document_succeeds: "attempt_succeeds attempt (Inr (Some long_document))"
proof -
  have "strip example_document \<noteq> []" by code_simp
  moreover have "strip (extract_html_from_response example_document) \<noteq> []" by code_simp
  moreover have "validate_html_template (PStr (extract_html_from_response example_document))"
    by code_simp
  ultimately show ?thesis
    by (simp add: attempt_succeeds_def long_document_def extract_padding strip_padding
          length_padding)
qed

lemma long_text_fails: "\<not> attempt_succeeds attempt (Inr (Some long_text))"
proof -
  have "\<not> validate_html_template (PStr (extract_html_from_response ''no template here''))"
    by code_simp
  then show ?thesis
    by (simp add: attempt_succeeds_def long_text_def extract_padding)
qed

text \<open>
  Five empty responses fail after five calls. Two long responses without a template
  followed by a long response that holds the example document return that document after
  three calls. A blank response, an exception, a response without content and a text
  without a template, followed by the short example document on the fifth attempt, return
  it after five calls.
\<close>

theorem generate_retry_policy_witness:
  "generate_template_with_ai (Inr (Some (provider_of_chat empty_chat))) ''p'' ''n'' [] None
        ''text_only'' None
      = (5, Inl (ValueError EmptyResponse))
   \<and> generate_template_with_ai (Inr (Some (provider_of_chat recovering_chat))) ''p'' ''n'' [] None
        ''text_only'' None
      = (3, Inr \<lparr> res_html_template = example_document, res_template_name = ''n'',
                   res_description = DefaultDescription ''p'', res_tags = DefaultTags,
                   res_llm_response = Some long_document \<rparr>)
   \<and> generate_template_with_ai (Inr (Some (provider_of_chat last_attempt_chat))) ''p'' ''n'' [] None
        ''text_only'' None
      = (5, Inr \<lparr> res_html_template = example_document, res_template_name = ''n'',
                   res_description = DefaultDescription ''p'', res_tags = DefaultTags,
                   res_llm_response = Some example_document \<rparr>)"
proof -
  let ?m = "[StrContent (TextOnlyPrompt ''p'')]"
  have m: "generation_messages ''p'' ''text_only'' None = Inr ?m"
    by (simp add: generation_messages_def)
  have c1: "chat_completion (provider_of_chat empty_chat) (map convert_message ?m) = empty_chat"
    and c2: "chat_completion (provider_of_chat last_attempt_chat) (map convert_message ?m)
               = last_attempt_chat"
    and c3: "chat_completion (provider_of_chat recovering_chat) (map convert_message ?m)
               = recovering_chat"
    by (simp_all add: provider_of_chat_def)
  have b: "\<forall>n<5. blank_response (chat_completion (provider_of_chat empty_chat)
                                     (map convert_message ?m) n)"
    unfolding c1 by (simp add: blank_response_def empty_chat_def)
  have e: "extract_html_from_response example_document = example_document"
    by code_simp
  have e': "extract_html_from_response long_document = example_document"
    using e by (simp add: long_document_def extract_padding)
  have s: "attempt_succeeds 4 (Inr (Some example_document))"
    by code_simp
  have n: "\<forall>j<4. \<not> attempt_succeeds j (chat_completion (provider_of_chat last_attempt_chat)
                                            (map convert_message ?m) j)"
  proof (intro allI impI)
    fix j :: nat assume "j < 4"
    then have "j = 0 \<or> j = 1 \<or> j = 2 \<or> j = 3" by auto
    moreover have "\<not> attempt_succeeds 0 (last_attempt_chat 0)" by code_simp
    moreover have "\<not> attempt_succeeds 1 (last_attempt_chat 1)" by code_simp
    moreover have "\<not> attempt_succeeds 2 (last_attempt_chat 2)" by code_simp
    moreover have "\<not> attempt_succeeds 3 (last_attempt_chat 3)" by code_simp
    ultimately show "\<not> attempt_succeeds j (chat_completion (provider_of_chat last_attempt_chat)
                                            (map convert_message ?m) j)"
      unfolding c2 by auto
  qed
  have k: "chat_completion (provider_of_chat last_attempt_chat) (map convert_message ?m) 4
             = Inr (Some example_document)"
    unfolding c2 by (simp add: last_attempt_chat_def)
  have n': "\<forall>j<2. \<not> attempt_succeeds j (chat_completion (provider_of_chat recovering_chat)
                                            (map convert_message ?m) j)"
    unfolding c3 by (simp add: recovering_chat_def long_text_fails)
  have k': "chat_completion (provider_of_chat recovering_chat) (map convert_message ?m) 2
             = Inr (Some long_document)"
    unfolding c3 by (simp add: recovering_chat_def)
  note t = generate_retry_policy [where prompt = "''p''" and name = "''n''" and desc = "[]"
      and tgs = None and generation_mode = "''text_only''" and reference_image = None
      and messages = ?m]
  have 1: "generate_template_with_ai (Inr (Some (provider_of_chat empty_chat))) ''p'' ''n'' [] None
        ''text_only'' None = (5, Inl (ValueError EmptyResponse))"
    using t [where role = "Inr (Some (provider_of_chat empty_chat))"
               and p = "provider_of_chat empty_chat", THEN conjunct2, THEN conjunct1] m b
    by blast
  have 2: "generate_template_with_ai (Inr (Some (provider_of_chat last_attempt_chat))) ''p'' ''n'' []
             None ''text_only'' None
      = (Suc 4, Inr \<lparr> res_html_template = extract_html_from_response example_document,
                   res_template_name = ''n'',
                   res_description = description_or_default [] ''p'', res_tags = tags_or_default None,
                   res_llm_response = Some example_document \<rparr>)"
    using t [where role = "Inr (Some (provider_of_chat last_attempt_chat))"
               and p = "provider_of_chat last_attempt_chat" and k = 4 and s = example_document,
             THEN conjunct2, THEN conjunct2] m k s n
    by simp
  have 3: "generate_template_with_ai (Inr (Some (provider_of_chat recovering_chat))) ''p'' ''n'' []
             None ''text_only'' None
      = (Suc 2, Inr \<lparr> res_html_template = extract_html_from_response long_document,
                   res_template_name = ''n'',
                   res_description = description_or_default [] ''p'', res_tags = tags_or_default None,
                   res_llm_response = Some long_document \<rparr>)"
    using t [where role = "Inr (Some (provider_of_chat recovering_chat))"
               and p = "provider_of_chat recovering_chat" and k = 2 and s = long_document,
             THEN conjunct2, THEN conjunct2] m k' n' long_document_succeeds [of 2]
    by simp
  show ?thesis using 1 2 3 unfolding e e'
    by (simp add: description_or_default_def tags_or_default_def)
qed

section \<open>The matcher agrees with the denotation of a pattern\<close>

text \<open>
  Whatever the matcher returns is the group text of a word the pattern accepts, and the
  matcher finds a match wherever the pattern accepts some word: the order in which
  greedy and lazy stars try their alternatives decides which match is found, not whether
  one is.
\<close>

lemma accepts_Greedy_skip: "accepts g r w x \<Longrightarrow> accepts g (Greedy a # r) w x"
  unfolding accepts.simps(5)
  by (intro exI [of _ "[]"] exI [of _ w] exI [of _ x]) (simp add: grouped_def)

lemma accepts_Lazy_skip: "accepts g r w x \<Longrightarrow> accepts g (Lazy a # r) w x"
  unfolding accepts.simps(6)
  by (intro exI [of _ "[]"] exI [of _ w] exI [of _ x]) (simp add: grouped_def)

lemma accepts_Greedy_more:
  assumes "atom_ok a c" and "accepts g (Greedy a # r) w x"
  shows "accepts g (Greedy a # r) (c # w) (keep g c x)"
proof -
  from assms(2) obtain u w' x' where u: "w = u @ w'" "list_all (atom_ok a) u"
      "x = grouped g u x'" "accepts g r w' x'"
    unfolding accepts.simps(5) by blast
  show ?thesis
    unfolding accepts.simps(5)
    using assms(1) u
    by (intro exI [of _ "c # u"] exI [of _ w'] exI [of _ x']) (simp add: grouped_def keep_def)
qed

lemma accepts_Lazy_more:
  assumes "atom_ok a c" and "accepts g (Lazy a # r) w x"
  shows "accepts g (Lazy a # r) (c # w) (keep g c x)"
proof -
  from assms(2) obtain u w' x' where u: "w = u @ w'" "list_all (atom_ok a) u"
      "x = grouped g u x'" "accepts g r w' x'"
    unfolding accepts.simps(6) by blast
  show ?thesis
    unfolding accepts.simps(6)
    using assms(1) u
    by (intro exI [of _ "c # u"] exI [of _ w'] exI [of _ x']) (simp add: grouped_def keep_def)
qed

lemma accepts_One:
  assumes "atom_ok a c" and "accepts g r w x"
  shows "accepts g (One a # r) (c # w) (keep g c x)"
  unfolding accepts.simps(4)
  using assms
  by (intro exI [of _ c] exI [of _ w] exI [of _ x]) (simp add: grouped_def keep_def)

lemma re_match_sound:
  "re_match g p s = Some x \<Longrightarrow> \<exists>w rest. s = w @ rest \<and> accepts g p w x"
proof (induction g p s arbitrary: x rule: re_match.induct)
  case (1 g s)
  then show ?case by simp
next
  case (2 g r s)
  then show ?case by simp
next
  case (3 g r s)
  then show ?case by simp
next
  case (4 g a r)
  then show ?case by simp
next
  case (5 g a r c cs)
  from "5.prems" have ok: "atom_ok a c"
    by (simp split: if_splits)
  with "5.prems" obtain x' where x': "re_match g r cs = Some x'" "x = keep g c x'"
    by auto
  from "5.IH" [OF ok x'(1)] obtain w rest where w: "cs = w @ rest" "accepts g r w x'"
    by blast
  have "c # cs = (c # w) @ rest" using w by simp
  moreover have "accepts g (One a # r) (c # w) x"
    unfolding x'(2) using ok w(2) by (rule accepts_One)
  ultimately show ?case by blast
next
  case (6 g a r)
  then have "re_match g r [] = Some x" by simp
  from "6.IH" [OF this] obtain w rest where w: "[] = w @ rest" "accepts g r w x"
    by blast
  from w(2) have "accepts g (Greedy a # r) w x" by (rule accepts_Greedy_skip)
  with w(1) show ?case by blast
next
  case (7 g a r c cs)
  show ?case
  proof (cases "atom_ok a c \<and> re_match g (Greedy a # r) cs \<noteq> None")
    case True
    then obtain x1 where x1: "re_match g (Greedy a # r) cs = Some x1" by auto
    with True "7.prems" have x: "x = keep g c x1" by simp
    from True have ok: "atom_ok a c" by simp
    from "7.IH"(1) [OF ok x1] obtain w rest where
      w: "cs = w @ rest" "accepts g (Greedy a # r) w x1" by blast
    have "c # cs = (c # w) @ rest" using w by simp
    moreover have "accepts g (Greedy a # r) (c # w) x"
      unfolding x using ok w(2) by (rule accepts_Greedy_more)
    ultimately show ?thesis by blast
  next
    case False
    then have m: "re_match g r (c # cs) = Some x"
      using "7.prems" by (auto split: if_splits option.splits)
    have "\<exists>w rest. c # cs = w @ rest \<and> accepts g r w x"
    proof (cases "atom_ok a c")
      case True
      with False have "re_match g (Greedy a # r) cs = None" by simp
      from "7.IH"(2) [OF True this m] show ?thesis .
    next
      case False
      from "7.IH"(3) [OF False m] show ?thesis .
    qed
    then obtain w rest where w: "c # cs = w @ rest" "accepts g r w x" by blast
    from w(2) have "accepts g (Greedy a # r) w x" by (rule accepts_Greedy_skip)
    with w(1) show ?thesis by blast
  qed
next
  case (8 g a r)
  then have "re_match g r [] = Some x" by simp
  from "8.IH" [OF this] obtain w rest where w: "[] = w @ rest" "accepts g r w x"
    by blast
  from w(2) have "accepts g (Lazy a # r) w x" by (rule accepts_Lazy_skip)
  with w(1) show ?case by blast
next
  case (9 g a r c cs)
  show ?case
  proof (cases "re_match g r (c # cs)")
    case (Some x0)
    with "9.prems" have "x0 = x" by simp
    with "9.IH"(1) Some obtain w rest where w: "c # cs = w @ rest" "accepts g r w x" by blast
    from w(2) have "accepts g (Lazy a # r) w x" by (rule accepts_Lazy_skip)
    with w(1) show ?thesis by blast
  next
    case None
    with "9.prems" have ok: "atom_ok a c" by (simp split: if_splits)
    with None "9.prems" obtain x1 where x1: "re_match g (Lazy a # r) cs = Some x1"
        "x = keep g c x1" by auto
    from "9.IH"(2) [OF None ok x1(1)] obtain w rest where
      w: "cs = w @ rest" "accepts g (Lazy a # r) w x1" by blast
    have "c # cs = (c # w) @ rest" using w by simp
    moreover have "accepts g (Lazy a # r) (c # w) x"
      unfolding x1(2) using ok w(2) by (rule accepts_Lazy_more)
    ultimately show ?thesis by blast
  qed
qed

lemma accepts_star_split:
  assumes "w = u @ w'" and "list_all (atom_ok a) u" and "accepts g r w' x'"
  shows "(u = [] \<and> accepts g r w x')
       \<or> (\<exists>c w1 x1. w = c # w1 \<and> atom_ok a c \<and> accepts g (Greedy a # r) w1 x1
                     \<and> accepts g (Lazy a # r) w1 x1)"
proof (cases u)
  case Nil
  with assms show ?thesis by simp
next
  case (Cons c u')
  have 1: "w = c # (u' @ w')" using assms Cons by simp
  have 2: "atom_ok a c" using assms Cons by simp
  have 3: "accepts g (Greedy a # r) (u' @ w') (grouped g u' x')"
    unfolding accepts.simps(5) using assms Cons
    by (intro exI [of _ u'] exI [of _ w'] exI [of _ x']) simp
  have 4: "accepts g (Lazy a # r) (u' @ w') (grouped g u' x')"
    unfolding accepts.simps(6) using assms Cons
    by (intro exI [of _ u'] exI [of _ w'] exI [of _ x']) simp
  show ?thesis using 1 2 3 4 by blast
qed

lemma accepts_Greedy_cases [consumes 1, case_names skip more]:
  assumes "accepts g (Greedy a # r) w x"
    and "\<And>x'. accepts g r w x' \<Longrightarrow> P"
    and "\<And>c w1 x1. w = c # w1 \<Longrightarrow> atom_ok a c \<Longrightarrow> accepts g (Greedy a # r) w1 x1 \<Longrightarrow> P"
  shows P
proof -
  from assms(1) obtain u w' x' where "w = u @ w'" "list_all (atom_ok a) u" "accepts g r w' x'"
    unfolding accepts.simps(5) by blast
  from accepts_star_split [OF this] assms(2,3) show P by blast
qed

lemma accepts_Lazy_cases [consumes 1, case_names skip more]:
  assumes "accepts g (Lazy a # r) w x"
    and "\<And>x'. accepts g r w x' \<Longrightarrow> P"
    and "\<And>c w1 x1. w = c # w1 \<Longrightarrow> atom_ok a c \<Longrightarrow> accepts g (Lazy a # r) w1 x1 \<Longrightarrow> P"
  shows P
proof -
  from assms(1) obtain u w' x' where "w = u @ w'" "list_all (atom_ok a) u" "accepts g r w' x'"
    unfolding accepts.simps(6) by blast
  from accepts_star_split [OF this] assms(2,3) show P by blast
qed

lemma re_match_complete_aux:
  "s = w @ rest \<Longrightarrow> accepts g p w x \<Longrightarrow> re_match g p s \<noteq> None"
proof (induction g p s arbitrary: w x rest rule: re_match.induct)
  case (1 g s)
  then show ?case by simp
next
  case (2 g r s)
  then show ?case by simp
next
  case (3 g r s)
  then show ?case by simp
next
  case (4 g a r)
  then show ?case by auto
next
  case (5 g a r c cs)
  from "5.prems"(2) obtain c' w' x' where w: "w = c' # w'" "atom_ok a c'" "accepts g r w' x'"
    by auto
  with "5.prems"(1) have c: "c' = c" "cs = w' @ rest" by simp_all
  from "5.IH" [OF _ c(2) w(3)] w(2) c(1) have "re_match g r cs \<noteq> None" by simp
  then show ?case using w(2) c(1) by simp
next
  case (6 g a r)
  then have w: "w = []" by simp
  from "6.prems"(2) show ?case
  proof (cases rule: accepts_Greedy_cases)
    case (skip x')
    from "6.IH" [OF "6.prems"(1) skip] show ?thesis by simp
  next
    case (more c w1 x1)
    with w show ?thesis by simp
  qed
next
  case (7 g a r c cs)
  from "7.prems"(2) show ?case
  proof (cases rule: accepts_Greedy_cases)
    case (skip x')
    show ?thesis
    proof (cases "atom_ok a c")
      case True
      show ?thesis
      proof (cases "re_match g (Greedy a # r) cs")
        case None
        from "7.IH"(2) [OF True None "7.prems"(1) skip] show ?thesis
          using True None by simp
      next
        case (Some x1)
        then show ?thesis using True by simp
      qed
    next
      case False
      from "7.IH"(3) [OF False "7.prems"(1) skip] show ?thesis using False by simp
    qed
  next
    case (more c' w1 x1)
    with "7.prems"(1) have c: "c' = c" "cs = w1 @ rest" by simp_all
    have ok: "atom_ok a c" using more(2) c(1) by simp
    from "7.IH"(1) [OF ok c(2) more(3)] have "re_match g (Greedy a # r) cs \<noteq> None" .
    then show ?thesis using ok by auto
  qed
next
  case (8 g a r)
  then have w: "w = []" by simp
  from "8.prems"(2) show ?case
  proof (cases rule: accepts_Lazy_cases)
    case (skip x')
    from "8.IH" [OF "8.prems"(1) skip] show ?thesis by simp
  next
    case (more c w1 x1)
    with w show ?thesis by simp
  qed
next
  case (9 g a r c cs)
  show ?case
  proof (cases "re_match g r (c # cs)")
    case (Some x0)
    then show ?thesis by simp
  next
    case None
    from "9.prems"(2) show ?thesis
    proof (cases rule: accepts_Lazy_cases)
      case (skip x')
      from "9.IH"(1) [OF "9.prems"(1) skip] None show ?thesis by simp
    next
      case (more c' w1 x1)
      with "9.prems"(1) have c: "c' = c" "cs = w1 @ rest" by simp_all
      have ok: "atom_ok a c" using more(2) c(1) by simp
      from "9.IH"(2) [OF None ok c(2) more(3)] have "re_match g (Lazy a # r) cs \<noteq> None" .
      then show ?thesis using ok None by auto
    qed
  qed
qed

lemma re_match_complete:
  "accepts g p w x \<Longrightarrow> re_match g p (w @ rest) \<noteq> None"
  using re_match_complete_aux [OF refl] .

lemma re_search_sound:
  "re_search p s = Some x \<Longrightarrow> \<exists>a w rest. s = a @ w @ rest \<and> accepts False p w x"
proof (induction p s rule: re_search.induct)
  case (1 p)
  then have "re_match False p [] = Some x" by simp
  from re_match_sound [OF this] show ?case by (metis append_Nil)
next
  case (2 p c cs)
  show ?case
  proof (cases "re_match False p (c # cs)")
    case None
    with "2.prems" have "re_search p cs = Some x" by simp
    from "2.IH" [OF None this] obtain a w rest where "cs = a @ w @ rest" "accepts False p w x"
      by blast
    then have "c # cs = (c # a) @ w @ rest \<and> accepts False p w x" by simp
    then show ?thesis by blast
  next
    case (Some x0)
    with "2.prems" have "re_match False p (c # cs) = Some x" by simp
    from re_match_sound [OF this] show ?thesis by (metis append_Nil)
  qed
qed

lemma re_search_complete:
  "accepts False p w x \<Longrightarrow> re_search p (a @ w @ rest) \<noteq> None"
proof (induction a)
  case Nil
  from re_match_complete [OF Nil, of rest] show ?case
    by (cases "w @ rest") auto
next
  case (Cons c a)
  then show ?case by (auto split: option.splits)
qed

lemma re_search_None_iff:
  "re_search p s = None \<longleftrightarrow> \<not> (\<exists>a w rest x. s = a @ w @ rest \<and> accepts False p w x)"
proof
  assume n: "re_search p s = None"
  show "\<not> (\<exists>a w rest x. s = a @ w @ rest \<and> accepts False p w x)"
  proof
    assume "\<exists>a w rest x. s = a @ w @ rest \<and> accepts False p w x"
    then obtain a w rest x where "s = a @ w @ rest" "accepts False p w x" by blast
    with re_search_complete [of p w x a rest] n show False by simp
  qed
next
  assume n: "\<not> (\<exists>a w rest x. s = a @ w @ rest \<and> accepts False p w x)"
  show "re_search p s = None"
  proof (cases "re_search p s")
    case None
    then show ?thesis .
  next
    case (Some x)
    from re_search_sound [OF Some] n show ?thesis by blast
  qed
qed

section \<open>The words of the three patterns\<close>

lemma accepts_lits:
  "accepts g (lits l @ r) w x
     \<longleftrightarrow> (\<exists>w' x'. w = l @ w' \<and> x = grouped g l x' \<and> accepts g r w' x')"
proof (induction l arbitrary: w x)
  case Nil
  then show ?case by (cases g) (simp_all add: lits_def grouped_def)
next
  case (Cons c l)
  have "accepts g (lits (c # l) @ r) w x
          \<longleftrightarrow> (\<exists>w1 x1. w = c # w1 \<and> x = grouped g [c] x1 \<and> accepts g (lits l @ r) w1 x1)"
    by (auto simp: lits_def)
  also have "\<dots> \<longleftrightarrow> (\<exists>w' x'. w = (c # l) @ w' \<and> x = grouped g (c # l) x' \<and> accepts g r w' x')"
    unfolding Cons.IH by (auto simp: grouped_def)
  finally show ?case .
qed

lemma accepts_ilits:
  "accepts g (ilits l @ r) w x
     \<longleftrightarrow> (\<exists>d w' x'. w = d @ w' \<and> lower d = lower l \<and> x = grouped g d x' \<and> accepts g r w' x')"
proof (induction l arbitrary: w x)
  case Nil
  then show ?case by (cases g) (simp_all add: ilits_def grouped_def lower_def)
next
  case (Cons c l)
  have "accepts g (ilits (c # l) @ r) w x
          \<longleftrightarrow> (\<exists>e w1 x1. w = e # w1 \<and> lower_char e = lower_char c \<and> x = grouped g [e] x1
                 \<and> accepts g (ilits l @ r) w1 x1)"
    by (auto simp: ilits_def)
  also have "\<dots> \<longleftrightarrow> (\<exists>d w' x'. w = d @ w' \<and> lower d = lower (c # l) \<and> x = grouped g d x'
                 \<and> accepts g r w' x')"
    (is "?L \<longleftrightarrow> ?R")
  proof
    assume ?L
    then obtain e w1 x1 where e: "w = e # w1" "lower_char e = lower_char c" "x = grouped g [e] x1"
        "accepts g (ilits l @ r) w1 x1" by blast
    from e(4) obtain d w' x' where d: "w1 = d @ w'" "lower d = lower l" "x1 = grouped g d x'"
        "accepts g r w' x'" unfolding Cons.IH by blast
    have "w = (e # d) @ w' \<and> lower (e # d) = lower (c # l) \<and> x = grouped g (e # d) x'
            \<and> accepts g r w' x'"
      using e d by (simp add: lower_def grouped_def)
    then show ?R by blast
  next
    assume ?R
    then obtain d w' x' where d: "w = d @ w'" "lower d = lower (c # l)" "x = grouped g d x'"
        "accepts g r w' x'" by blast
    from d(2) obtain e d' where e: "d = e # d'" "lower_char e = lower_char c" "lower d' = lower l"
      by (cases d) (auto simp: lower_def)
    have "accepts g (ilits l @ r) (d' @ w') (grouped g d' x')"
      unfolding Cons.IH using e d by blast
    then show ?L using e d by (auto simp: grouped_def)
  qed
  finally show ?case .
qed

lemma accepts_lits_end: "accepts g (lits l) w x \<longleftrightarrow> w = l \<and> x = grouped g l []"
  using accepts_lits [of g l "[]" w x] by auto

lemma accepts_ilits_end:
  "accepts g (ilits l) w x \<longleftrightarrow> lower w = lower l \<and> x = grouped g w []"
  using accepts_ilits [of g l "[]" w x] by auto

lemma list_all_Dot [simp]: "list_all (atom_ok Dot) u"
  by (induction u) simp_all

lemma atom_ok_Space [simp]: "atom_ok Space = isspace"
  by (rule ext) simp

lemma atom_ok_Alpha [simp]: "atom_ok Alpha = isalpha_ascii"
  by (rule ext) simp

lemma accepts_Greedy_False:
  "accepts False (Greedy a # r) w x
     \<longleftrightarrow> (\<exists>u w'. w = u @ w' \<and> list_all (atom_ok a) u \<and> accepts False r w' x)"
  unfolding accepts.simps(5) by (auto simp: grouped_def simp del: accepts.simps)

lemma accepts_group_Lazy_Dot:
  "accepts g (GroupOpen # Lazy Dot # r) w x
     \<longleftrightarrow> (\<exists>v w' x'. w = v @ w' \<and> x = v @ x' \<and> accepts True r w' x')"
  unfolding accepts.simps(2,6) by (auto simp: grouped_def simp del: accepts.simps)

lemma accepts_close_fence:
  "accepts g (GroupClose # Greedy Space # lits fence) z x
     \<longleftrightarrow> (\<exists>w2. z = w2 @ fence \<and> list_all isspace w2 \<and> x = [])"
  unfolding accepts.simps(3) accepts_Greedy_False accepts_lits_end atom_ok_Space
  by (auto simp: grouped_def simp del: accepts.simps)

lemma accepts_close_ifence:
  "accepts g (GroupClose # Greedy Space # ilits fence) z x
     \<longleftrightarrow> (\<exists>w2 f. z = w2 @ f \<and> list_all isspace w2 \<and> lower f = lower fence \<and> x = [])"
  unfolding accepts.simps(3) accepts_Greedy_False accepts_ilits_end atom_ok_Space
  by (auto simp: grouped_def simp del: accepts.simps)

lemma accepts_html_block:
  "accepts False html_block_pattern w x
     \<longleftrightarrow> (\<exists>w1 w2. w = fence @ ''html'' @ w1 @ x @ w2 @ fence
            \<and> list_all isspace w1 \<and> list_all isspace w2)"
  (is "?L \<longleftrightarrow> ?R")
proof -
  have p: "html_block_pattern
             = lits (fence @ ''html'')
                 @ (Greedy Space # GroupOpen # Lazy Dot # GroupClose # Greedy Space # lits fence)"
    by (simp add: html_block_pattern_def)
  have "?L \<longleftrightarrow> (\<exists>w' w1 y v z x'. w = (fence @ ''html'') @ w' \<and> w' = w1 @ y \<and> list_all isspace w1
                  \<and> y = v @ z \<and> x = v @ x'
                  \<and> (\<exists>w2. z = w2 @ fence \<and> list_all isspace w2 \<and> x' = []))"
    unfolding p accepts_lits accepts_Greedy_False accepts_group_Lazy_Dot accepts_close_fence
      atom_ok_Space
    by (auto simp: grouped_def simp del: accepts.simps)
  also have "\<dots> \<longleftrightarrow> ?R"
  proof
    assume "\<exists>w' w1 y v z x'. w = (fence @ ''html'') @ w' \<and> w' = w1 @ y \<and> list_all isspace w1
                  \<and> y = v @ z \<and> x = v @ x'
                  \<and> (\<exists>w2. z = w2 @ fence \<and> list_all isspace w2 \<and> x' = [])"
    then obtain w1 w2 where "w = (fence @ ''html'') @ w1 @ x @ w2 @ fence"
        "list_all isspace w1" "list_all isspace w2"
      by auto
    then show ?R by (intro exI [of _ w1] exI [of _ w2]) simp
  next
    assume ?R
    then obtain w1 w2 where r: "w = fence @ ''html'' @ w1 @ x @ w2 @ fence"
        "list_all isspace w1" "list_all isspace w2" by blast
    show "\<exists>w' w1 y v z x'. w = (fence @ ''html'') @ w' \<and> w' = w1 @ y \<and> list_all isspace w1
                  \<and> y = v @ z \<and> x = v @ x'
                  \<and> (\<exists>w2. z = w2 @ fence \<and> list_all isspace w2 \<and> x' = [])"
      using r
      by (intro exI [of _ "w1 @ x @ w2 @ fence"] exI [of _ w1] exI [of _ "x @ w2 @ fence"]
            exI [of _ x] exI [of _ "w2 @ fence"] exI [of _ "[]"]) simp
  qed
  finally show ?thesis .
qed

lemma lower_DOCTYPE: "lower ''<!DOCTYPE html'' = ''<!doctype html''"
  by code_simp

lemma lower_html_close: "lower ''</html>'' = ''</html>''"
  by code_simp

lemma accepts_document:
  "accepts True (ilits ''<!DOCTYPE html'' @ Lazy Dot # ilits ''</html>'' @ r) w x
     \<longleftrightarrow> (\<exists>g w' x'. w = g @ w' \<and> x = g @ x' \<and> is_document g \<and> accepts True r w' x')"
  (is "?L \<longleftrightarrow> ?R")
proof
  assume ?L
  then obtain d w1 x1 where 1: "w = d @ w1" "lower d = lower ''<!DOCTYPE html''" "x = d @ x1"
      "accepts True (Lazy Dot # ilits ''</html>'' @ r) w1 x1"
    unfolding accepts_ilits by (auto simp: grouped_def simp del: accepts.simps)
  from 1(4) obtain b w2 x2 where 2: "w1 = b @ w2" "x1 = b @ x2"
      "accepts True (ilits ''</html>'' @ r) w2 x2"
    unfolding accepts.simps(6) by (auto simp: grouped_def simp del: accepts.simps)
  from 2(3) obtain h w3 x3 where 3: "w2 = h @ w3" "lower h = lower ''</html>''" "x2 = h @ x3"
      "accepts True r w3 x3"
    unfolding accepts_ilits by (auto simp: grouped_def simp del: accepts.simps)
  have "is_document (d @ b @ h)"
    unfolding is_document_def using 1(2) 3(2) lower_DOCTYPE lower_html_close by auto
  moreover have "w = (d @ b @ h) @ w3" "x = (d @ b @ h) @ x3" using 1 2 3 by simp_all
  ultimately show ?R using 3(4) by blast
next
  assume ?R
  then obtain g w' x' where r: "w = g @ w'" "x = g @ x'" "is_document g" "accepts True r w' x'"
    by blast
  from r(3) obtain d b h where g: "g = d @ b @ h" "lower d = ''<!doctype html''"
      "lower h = ''</html>''" unfolding is_document_def by blast
  have 3: "accepts True (ilits ''</html>'' @ r) (h @ w') (h @ x')"
    unfolding accepts_ilits using g(3) r(4) lower_html_close
    by (intro exI [of _ h] exI [of _ w'] exI [of _ x']) (simp add: grouped_def del: accepts.simps)
  have 2: "accepts True (Lazy Dot # ilits ''</html>'' @ r) (b @ h @ w') (b @ h @ x')"
    unfolding accepts.simps(6) using 3
    by (intro exI [of _ b] exI [of _ "h @ w'"] exI [of _ "h @ x'"])
       (simp add: grouped_def del: accepts.simps)
  show ?L
    unfolding accepts_ilits using g(2) 2 lower_DOCTYPE r(1,2) g(1)
    by (intro exI [of _ d] exI [of _ "b @ h @ w'"] exI [of _ "b @ h @ x'"])
       (simp add: grouped_def del: accepts.simps)
qed

lemma lower_char_backquote: "lower_char c = char_of (96::nat) \<longleftrightarrow> c = char_of (96::nat)"
proof -
  define n where "n = (of_char c :: nat)"
  have n: "n < 256" unfolding n_def by simp
  have c: "c = char_of n" unfolding n_def by simp
  have e: "char_of (m::nat) = (char_of (96::nat) :: char) \<longleftrightarrow> m mod 256 = 96" for m
    by (simp add: char_of_eq_iff take_bit_eq_mod)
  have "lower_char c
          = (if (65 \<le> n \<and> n \<le> 90) \<or> (192 \<le> n \<and> n \<le> 222 \<and> n \<noteq> 215)
             then char_of (n + 32) else char_of n)"
    unfolding lower_char_def Let_def n_def by simp
  then show ?thesis
    using n by (auto simp: e c)
qed

lemma lower_fence_iff: "lower f = lower fence \<longleftrightarrow> f = fence"
proof -
  have "lower f = lower fence \<longleftrightarrow> map lower_char f = replicate 3 (char_of (96::nat))"
    using lower_char_backquote [of "char_of (96::nat)"] by (simp add: lower_def fence_def)
  also have "\<dots> \<longleftrightarrow> f = replicate 3 (char_of (96::nat))"
    by (auto simp: map_eq_Cons_conv numeral_3_eq_3 lower_char_backquote)
  finally show ?thesis by (simp add: fence_def)
qed

lemma accepts_code_block:
  "accepts False code_block_pattern w x
     \<longleftrightarrow> (\<exists>l w1 w2. w = fence @ l @ w1 @ x @ w2 @ fence
            \<and> list_all isalpha_ascii l \<and> list_all isspace w1 \<and> list_all isspace w2
            \<and> is_document x)"
  (is "?L \<longleftrightarrow> ?R")
proof -
  let ?close = "GroupClose # Greedy Space # ilits fence"
  let ?doc = "ilits ''<!DOCTYPE html'' @ Lazy Dot # ilits ''</html>'' @ ?close"
  have p: "code_block_pattern = ilits fence @ (Greedy Alpha # Greedy Space # GroupOpen # ?doc)"
    by (simp add: code_block_pattern_def)
  have doc: "accepts True ?doc y x
               \<longleftrightarrow> (\<exists>w2. y = x @ w2 @ fence \<and> list_all isspace w2 \<and> is_document x)" for y
  proof
    assume "accepts True ?doc y x"
    then obtain g w' x' where 1: "y = g @ w'" "x = g @ x'" "is_document g" "accepts True ?close w' x'"
      unfolding accepts_document by blast
    from 1(4) obtain w2 f where 2: "w' = w2 @ f" "list_all isspace w2" "lower f = lower fence"
        "x' = []"
      unfolding accepts_close_ifence by blast
    from 2(3) have "f = fence" by (simp add: lower_fence_iff)
    with 1 2 show "\<exists>w2. y = x @ w2 @ fence \<and> list_all isspace w2 \<and> is_document x" by auto
  next
    assume "\<exists>w2. y = x @ w2 @ fence \<and> list_all isspace w2 \<and> is_document x"
    then obtain w2 where r: "y = x @ w2 @ fence" "list_all isspace w2" "is_document x" by blast
    have "accepts True ?close (w2 @ fence) []"
      unfolding accepts_close_ifence using r(2) by blast
    then show "accepts True ?doc y x"
      unfolding accepts_document using r
      by (intro exI [of _ x] exI [of _ "w2 @ fence"] exI [of _ "[]"]) simp
  qed
  show ?thesis
  proof
    assume ?L
    then obtain f w0 where 0: "w = f @ w0" "lower f = lower fence"
        "accepts False (Greedy Alpha # Greedy Space # GroupOpen # ?doc) w0 x"
      unfolding p accepts_ilits by (auto simp: grouped_def simp del: accepts.simps)
    from 0(3) obtain l w1 y where 1: "w0 = l @ w1 @ y" "list_all isalpha_ascii l"
        "list_all isspace w1" "accepts False (GroupOpen # ?doc) y x"
      unfolding accepts_Greedy_False atom_ok_Alpha atom_ok_Space by blast
    from 1(4) have "accepts True ?doc y x" by (simp only: accepts.simps(2))
    then obtain w2 where 2: "y = x @ w2 @ fence" "list_all isspace w2" "is_document x"
      unfolding doc by blast
    have "w = fence @ l @ w1 @ x @ w2 @ fence"
      using 0(1,2) 1(1) 2(1) by (simp add: lower_fence_iff)
    then show ?R using 1(2,3) 2(2,3) by blast
  next
    assume ?R
    then obtain l w1 w2 where r: "w = fence @ l @ w1 @ x @ w2 @ fence" "list_all isalpha_ascii l"
        "list_all isspace w1" "list_all isspace w2" "is_document x" by blast
    have "accepts True ?doc (x @ w2 @ fence) x"
      unfolding doc using r(4,5) by blast
    then have "accepts False (GroupOpen # ?doc) (x @ w2 @ fence) x"
      by (simp only: accepts.simps(2))
    then have "accepts False (Greedy Alpha # Greedy Space # GroupOpen # ?doc)
                 (l @ w1 @ x @ w2 @ fence) x"
      unfolding accepts_Greedy_False atom_ok_Alpha atom_ok_Space using r(2,3) by blast
    then show ?L
      unfolding p accepts_ilits using r(1)
      by (intro exI [of _ fence] exI [of _ "l @ w1 @ x @ w2 @ fence"] exI [of _ x])
         (simp add: grouped_def del: accepts.simps)
  qed
qed

lemma accepts_doctype:
  "accepts False doctype_pattern w x \<longleftrightarrow> w = x \<and> is_document x"
proof -
  have p: "doctype_pattern
             = GroupOpen # (ilits ''<!DOCTYPE html'' @ Lazy Dot # ilits ''</html>'' @ [GroupClose])"
    by (simp add: doctype_pattern_def)
  have e: "accepts True [GroupClose] w' x' \<longleftrightarrow> w' = [] \<and> x' = []" for w' x'
    by simp
  show ?thesis
    unfolding p accepts.simps(2) accepts_document e by auto
qed

lemma fenced_html_accepts:
  "fenced_html txt g \<longleftrightarrow> (\<exists>a w rest. txt = a @ w @ rest \<and> accepts False html_block_pattern w g)"
proof
  assume "fenced_html txt g"
  then obtain a w1 w2 c where "txt = a @ fence @ ''html'' @ w1 @ g @ w2 @ fence @ c"
      "list_all isspace w1" "list_all isspace w2"
    unfolding fenced_html_def by blast
  then have "txt = a @ (fence @ ''html'' @ w1 @ g @ w2 @ fence) @ c
             \<and> accepts False html_block_pattern (fence @ ''html'' @ w1 @ g @ w2 @ fence) g"
    unfolding accepts_html_block by auto
  then show "\<exists>a w rest. txt = a @ w @ rest \<and> accepts False html_block_pattern w g" by blast
next
  assume "\<exists>a w rest. txt = a @ w @ rest \<and> accepts False html_block_pattern w g"
  then obtain a w rest w1 w2 where "txt = a @ w @ rest" "w = fence @ ''html'' @ w1 @ g @ w2 @ fence"
      "list_all isspace w1" "list_all isspace w2"
    unfolding accepts_html_block by blast
  then show "fenced_html txt g"
    unfolding fenced_html_def
    by (intro exI [of _ a] exI [of _ w1] exI [of _ w2] exI [of _ rest]) simp
qed

lemma fenced_document_accepts:
  "fenced_document txt g
     \<longleftrightarrow> (\<exists>a w rest. txt = a @ w @ rest \<and> accepts False code_block_pattern w g)"
proof
  assume "fenced_document txt g"
  then obtain a l w1 w2 c where "txt = a @ fence @ l @ w1 @ g @ w2 @ fence @ c"
      "list_all isalpha_ascii l" "list_all isspace w1" "list_all isspace w2" "is_document g"
    unfolding fenced_document_def by blast
  then have "txt = a @ (fence @ l @ w1 @ g @ w2 @ fence) @ c
             \<and> accepts False code_block_pattern (fence @ l @ w1 @ g @ w2 @ fence) g"
    unfolding accepts_code_block by auto
  then show "\<exists>a w rest. txt = a @ w @ rest \<and> accepts False code_block_pattern w g" by blast
next
  assume "\<exists>a w rest. txt = a @ w @ rest \<and> accepts False code_block_pattern w g"
  then obtain a w rest l w1 w2 where "txt = a @ w @ rest" "w = fence @ l @ w1 @ g @ w2 @ fence"
      "list_all isalpha_ascii l" "list_all isspace w1" "list_all isspace w2" "is_document g"
    unfolding accepts_code_block by blast
  then show "fenced_document txt g"
    unfolding fenced_document_def
    by (intro exI [of _ a] exI [of _ l] exI [of _ w1] exI [of _ w2] exI [of _ rest]) simp
qed

lemma bare_document_accepts:
  "bare_document txt g
     \<longleftrightarrow> (\<exists>a w rest. txt = a @ w @ rest \<and> accepts False doctype_pattern w g)"
  unfolding bare_document_def accepts_doctype by auto

lemma search_html_block:
  "re_search html_block_pattern txt = Some g \<Longrightarrow> fenced_html txt g"
  "re_search html_block_pattern txt = None \<longleftrightarrow> \<not> (\<exists>g. fenced_html txt g)"
  using re_search_sound [of html_block_pattern "txt" g]
    re_search_None_iff [of html_block_pattern "txt"]
  unfolding fenced_html_accepts by blast+

lemma search_code_block:
  "re_search code_block_pattern txt = Some g \<Longrightarrow> fenced_document txt g"
  "re_search code_block_pattern txt = None \<longleftrightarrow> \<not> (\<exists>g. fenced_document txt g)"
  using re_search_sound [of code_block_pattern "txt" g]
    re_search_None_iff [of code_block_pattern "txt"]
  unfolding fenced_document_accepts by blast+

lemma search_doctype:
  "re_search doctype_pattern txt = Some g \<Longrightarrow> bare_document txt g"
  "re_search doctype_pattern txt = None \<longleftrightarrow> \<not> (\<exists>g. bare_document txt g)"
  using re_search_sound [of doctype_pattern "txt" g]
    re_search_None_iff [of doctype_pattern "txt"]
  unfolding bare_document_accepts by blast+

lemma rstrip_prefix: "u = rstrip u @ rev (takeWhile isspace (rev u))"
  unfolding rstrip_def by (metis rev_append rev_rev_ident takeWhile_dropWhile_id)

lemma lstrip_fixed: "u = [] \<or> \<not> isspace (hd u) \<Longrightarrow> lstrip u = u"
  by (cases u) (simp_all add: lstrip_def)

lemma lstrip_head: "lstrip s = [] \<or> \<not> isspace (hd (lstrip s))"
  unfolding lstrip_def by (metis hd_dropWhile)

lemma rstrip_rstrip: "rstrip (rstrip u) = rstrip u"
  by (simp add: rstrip_def)

lemma strip_strip: "strip (strip s) = strip s"
proof -
  let ?u = "lstrip s"
  have "rstrip ?u = [] \<or> \<not> isspace (hd (rstrip ?u))"
  proof (cases "rstrip ?u = []")
    case True
    then show ?thesis by simp
  next
    case False
    then have "hd ?u = hd (rstrip ?u)"
      using rstrip_prefix [of ?u] by (metis hd_append2)
    moreover have "?u \<noteq> []" using False by (auto simp: rstrip_def)
    ultimately show ?thesis using lstrip_head [of s] by simp
  qed
  then have "lstrip (rstrip ?u) = rstrip ?u" by (rule lstrip_fixed)
  then show ?thesis by (simp add: strip_def rstrip_rstrip)
qed

section \<open>Extraction\<close>

text \<open>
  Claim C3. For every text the extraction returns a value, found by the first layer that
  applies, in this order: when the text holds a fenced block tagged \<open>html\<close>, the trimmed
  content of such a block; otherwise, when it holds a fenced block around a document, such
  a document, trimmed; otherwise, when it holds a document anywhere, such a document,
  trimmed; otherwise the trimmed text itself, whether or not it starts with
  \<open><!doctype html\<close> and ends with \<open></html>\<close>. The value returned has no whitespace around
  it.
\<close>

theorem extract_html_layers:
  "((\<exists>g. fenced_html txt g)
      \<longrightarrow> (\<exists>g. fenced_html txt g \<and> extract_html_from_response txt = strip g))
   \<and> (\<not> (\<exists>g. fenced_html txt g) \<and> (\<exists>g. fenced_document txt g)
      \<longrightarrow> (\<exists>g. fenced_document txt g \<and> extract_html_from_response txt = strip g))
   \<and> (\<not> (\<exists>g. fenced_html txt g) \<and> \<not> (\<exists>g. fenced_document txt g) \<and> (\<exists>g. bare_document txt g)
      \<longrightarrow> (\<exists>g. bare_document txt g \<and> extract_html_from_response txt = strip g))
   \<and> (\<not> (\<exists>g. fenced_html txt g) \<and> \<not> (\<exists>g. fenced_document txt g)
        \<and> \<not> (\<exists>g. bare_document txt g)
      \<longrightarrow> extract_html_from_response txt = strip txt)
   \<and> strip (extract_html_from_response txt) = extract_html_from_response txt"
proof (intro conjI impI)
  assume "\<exists>g. fenced_html txt g"
  then obtain g where g: "re_search html_block_pattern txt = Some g"
    using search_html_block(2) [of "txt"] by (cases "re_search html_block_pattern txt") auto
  then have "extract_html_from_response txt = strip g"
    by (simp add: extract_html_from_response_def)
  with search_html_block(1) [OF g]
  show "\<exists>g. fenced_html txt g \<and> extract_html_from_response txt = strip g" by blast
next
  assume a: "\<not> (\<exists>g. fenced_html txt g) \<and> (\<exists>g. fenced_document txt g)"
  then have n: "re_search html_block_pattern txt = None"
    using search_html_block(2) [of "txt"] by simp
  from a obtain g where g: "re_search code_block_pattern txt = Some g"
    using search_code_block(2) [of "txt"] by (cases "re_search code_block_pattern txt") auto
  then have "extract_html_from_response txt = strip g"
    using n by (simp add: extract_html_from_response_def)
  with search_code_block(1) [OF g]
  show "\<exists>g. fenced_document txt g \<and> extract_html_from_response txt = strip g" by blast
next
  assume a: "\<not> (\<exists>g. fenced_html txt g) \<and> \<not> (\<exists>g. fenced_document txt g)
             \<and> (\<exists>g. bare_document txt g)"
  then have n: "re_search html_block_pattern txt = None" "re_search code_block_pattern txt = None"
    using search_html_block(2) [of "txt"] search_code_block(2) [of "txt"] by simp_all
  from a obtain g where g: "re_search doctype_pattern txt = Some g"
    using search_doctype(2) [of "txt"] by (cases "re_search doctype_pattern txt") auto
  then have "extract_html_from_response txt = strip g"
    using n by (simp add: extract_html_from_response_def)
  with search_doctype(1) [OF g]
  show "\<exists>g. bare_document txt g \<and> extract_html_from_response txt = strip g" by blast
next
  assume a: "\<not> (\<exists>g. fenced_html txt g) \<and> \<not> (\<exists>g. fenced_document txt g)
             \<and> \<not> (\<exists>g. bare_document txt g)"
  then have "re_search html_block_pattern txt = None" "re_search code_block_pattern txt = None"
      "re_search doctype_pattern txt = None"
    using search_html_block(2) [of "txt"] search_code_block(2) [of "txt"]
      search_doctype(2) [of "txt"] by simp_all
  then show "extract_html_from_response txt = strip txt"
    by (simp add: extract_html_from_response_def Let_def)
next
  show "strip (extract_html_from_response txt) = extract_html_from_response txt"
    by (simp add: extract_html_from_response_def Let_def strip_strip split: option.splits)
qed

text \<open>
  One text for each layer: an \<open>html\<close> block inside prose, a block tagged \<open>xml\<close> around a
  document, a document between words, and a text without markup.
\<close>

theorem extract_html_layers_witness:
  "(\<exists>g. fenced_html fenced_html_text g \<and> extract_html_from_response fenced_html_text = strip g)
   \<and> extract_html_from_response fenced_html_text = ''<p>x</p>''
   \<and> (\<exists>g. fenced_document fenced_document_text g
          \<and> extract_html_from_response fenced_document_text = strip g)
   \<and> extract_html_from_response fenced_document_text = ''<!DOCTYPE html><html></html>''
   \<and> (\<exists>g. bare_document bare_document_text g
          \<and> extract_html_from_response bare_document_text = strip g)
   \<and> extract_html_from_response bare_document_text = ''<!doctype html><html></HTML>''
   \<and> extract_html_from_response ''  no markup here  '' = strip ''  no markup here  ''
   \<and> strip ''  no markup here  '' = ''no markup here''"
proof -
  have s1: "re_search html_block_pattern fenced_html_text \<noteq> None" by code_simp
  have s2: "re_search html_block_pattern fenced_document_text = None"
    "re_search code_block_pattern fenced_document_text \<noteq> None" by code_simp+
  have s3: "re_search html_block_pattern bare_document_text = None"
    "re_search code_block_pattern bare_document_text = None"
    "re_search doctype_pattern bare_document_text \<noteq> None" by code_simp+
  have s4: "re_search html_block_pattern ''  no markup here  '' = None"
    "re_search code_block_pattern ''  no markup here  '' = None"
    "re_search doctype_pattern ''  no markup here  '' = None" by code_simp+
  have h1: "\<exists>g. fenced_html fenced_html_text g"
    using s1 unfolding search_html_block(2) by simp
  have h2: "\<not> (\<exists>g. fenced_html fenced_document_text g) \<and> (\<exists>g. fenced_document fenced_document_text g)"
    using s2 unfolding search_html_block(2) search_code_block(2) by simp
  have h3: "\<not> (\<exists>g. fenced_html bare_document_text g) \<and> \<not> (\<exists>g. fenced_document bare_document_text g)
            \<and> (\<exists>g. bare_document bare_document_text g)"
    using s3 unfolding search_html_block(2) search_code_block(2) search_doctype(2) by simp
  have h4: "\<not> (\<exists>g. fenced_html ''  no markup here  '' g)
            \<and> \<not> (\<exists>g. fenced_document ''  no markup here  '' g)
            \<and> \<not> (\<exists>g. bare_document ''  no markup here  '' g)"
    using s4 unfolding search_html_block(2) search_code_block(2) search_doctype(2) by simp
  have v1: "extract_html_from_response fenced_html_text = ''<p>x</p>''" by code_simp
  have v2: "extract_html_from_response fenced_document_text = ''<!DOCTYPE html><html></html>''"
    by code_simp
  have v3: "extract_html_from_response bare_document_text = ''<!doctype html><html></HTML>''"
    by code_simp
  have v4: "strip ''  no markup here  '' = ''no markup here''" by code_simp
  note t = extract_html_layers
  from t [of fenced_html_text, THEN conjunct1, rule_format, OF h1]
       t [of fenced_document_text, THEN conjunct2, THEN conjunct1, rule_format, OF h2]
       t [of bare_document_text, THEN conjunct2, THEN conjunct2, THEN conjunct1, rule_format, OF h3]
       t [of "''  no markup here  ''", THEN conjunct2, THEN conjunct2, THEN conjunct2,
          THEN conjunct1, rule_format, OF h4]
       v1 v2 v3 v4
  show ?thesis by blast
qed

end
